theory Spec2Isabelle
  imports Main "HOL-Library.Sublist"
begin

section \<open>Python strings\<close>

text \<open>
  A Python \<open>str\<close> is a sequence of Unicode code points; it is modelled as a list of
  natural numbers, one per code point. \<open>py\<close> turns an ASCII literal into such a list.
\<close>

type_synonym pystr = "nat list"

definition py :: "string \<Rightarrow> pystr" where
  "py s = map of_char s"

text \<open>\<open>str.isspace\<close> for one code point: the white-space table of CPython.\<close>

definition isspace :: "nat \<Rightarrow> bool" where
  "isspace c \<longleftrightarrow>
     (9 \<le> c \<and> c \<le> 13) \<or> (28 \<le> c \<and> c \<le> 32) \<or> c = 133 \<or> c = 160 \<or> c = 5760
     \<or> (8192 \<le> c \<and> c \<le> 8202) \<or> c = 8232 \<or> c = 8233 \<or> c = 8239 \<or> c = 8287
     \<or> c = 12288"

text \<open>\<open>s.strip()\<close>: white space removed at both ends.\<close>

definition strip :: "pystr \<Rightarrow> pystr" where
  "strip s = rev (dropWhile isspace (rev (dropWhile isspace s)))"

text \<open>
  \<open>s.split(sep)\<close> for a non-empty separator: the occurrences of \<open>sep\<close> are found from
  left to right and do not overlap; \<open>cur\<close> is the piece being collected. (Python raises
  ValueError for an empty separator; the only separator of the program is a literal.)
\<close>

fun split_from :: "pystr \<Rightarrow> pystr \<Rightarrow> pystr \<Rightarrow> pystr list" where
  "split_from sep cur [] = [cur]"
| "split_from sep cur (c # cs) =
     (if sep \<noteq> [] \<and> prefix sep (c # cs)
      then cur # split_from sep [] (drop (length sep) (c # cs))
      else split_from sep (cur @ [c]) cs)"

definition split :: "pystr \<Rightarrow> pystr \<Rightarrow> pystr list" where
  "split s sep = split_from sep [] s"

text \<open>\<open>s.replace(old, new)\<close> for a non-empty \<open>old\<close>: every occurrence, left to right.\<close>

fun replace_from :: "pystr \<Rightarrow> pystr \<Rightarrow> pystr \<Rightarrow> pystr" where
  "replace_from old new [] = []"
| "replace_from old new (c # cs) =
     (if old \<noteq> [] \<and> prefix old (c # cs)
      then new @ replace_from old new (drop (length old) (c # cs))
      else c # replace_from old new cs)"

definition replace :: "pystr \<Rightarrow> pystr \<Rightarrow> pystr \<Rightarrow> pystr" where
  "replace s old new = replace_from old new s"

section \<open>The URL parser\<close>

text \<open>
  \<open>re.search\<close> with the two patterns of \<open>extract_video_id\<close>. A matcher takes the text
  from a start position on and returns group 1 of the match that begins there, if any.
\<close>

text \<open>The character class \<open>[a-zA-Z0-9_-]\<close>.\<close>

definition idchar :: "nat \<Rightarrow> bool" where
  "idchar c \<longleftrightarrow>
     (97 \<le> c \<and> c \<le> 122) \<or> (65 \<le> c \<and> c \<le> 90) \<or> (48 \<le> c \<and> c \<le> 57) \<or> c = 95 \<or> c = 45"

text \<open>A literal piece of a pattern: the text left after it, when the text begins with it.\<close>

fun lit :: "pystr \<Rightarrow> pystr \<Rightarrow> pystr option" where
  "lit [] s = Some s"
| "lit (p # ps) [] = None"
| "lit (p # ps) (c # cs) = (if p = c then lit ps cs else None)"

text \<open>The group \<open>([a-zA-Z0-9_-]{11})\<close>, which ends both patterns.\<close>

definition id11 :: "pystr \<Rightarrow> pystr option" where
  "id11 s = (if 11 \<le> length s \<and> list_all idchar (take 11 s) then Some (take 11 s) else None)"

text \<open>
  The first pattern at one start position: its three alternatives in their order, the next
  one tried when the identifier does not follow.
\<close>

definition pattern1_at :: "pystr \<Rightarrow> pystr option" where
  "pattern1_at s =
     (case Option.bind (lit (py ''youtube.com/watch?v='') s) id11 of
        Some g \<Rightarrow> Some g
      | None \<Rightarrow>
          (case Option.bind (lit (py ''youtu.be/'') s) id11 of
             Some g \<Rightarrow> Some g
           | None \<Rightarrow> Option.bind (lit (py ''youtube.com/embed/'') s) id11))"

text \<open>
  The lazy \<open>.*?\<close> followed by \<open>&v=\<close> and the group: the fewest characters are skipped, and
  \<open>.\<close> does not match a line feed.
\<close>

fun lazy_amp_v :: "pystr \<Rightarrow> pystr option" where
  "lazy_amp_v [] = None"
| "lazy_amp_v (c # cs) =
     (case Option.bind (lit (py ''&v='') (c # cs)) id11 of
        Some g \<Rightarrow> Some g
      | None \<Rightarrow> (if c = 10 then None else lazy_amp_v cs))"

definition pattern2_at :: "pystr \<Rightarrow> pystr option" where
  "pattern2_at s = Option.bind (lit (py ''youtube.com/watch?'') s) lazy_amp_v"

text \<open>\<open>re.search\<close>: the start positions from left to right, the first match wins.\<close>

fun re_search :: "(pystr \<Rightarrow> pystr option) \<Rightarrow> pystr \<Rightarrow> pystr option" where
  "re_search m [] = m []"
| "re_search m (c # cs) = (case m (c # cs) of Some g \<Rightarrow> Some g | None \<Rightarrow> re_search m cs)"

text \<open>The loop over \<open>patterns\<close>; \<open>None\<close> is Python's \<open>None\<close>.\<close>

fun first_match :: "(pystr \<Rightarrow> pystr option) list \<Rightarrow> pystr \<Rightarrow> pystr option" where
  "first_match [] url = None"
| "first_match (pattern # patterns) url =
     (case re_search pattern url of Some g \<Rightarrow> Some g | None \<Rightarrow> first_match patterns url)"

definition extract_video_id :: "pystr \<Rightarrow> pystr option" where
  "extract_video_id url = first_match [pattern1_at, pattern2_at] url"

section \<open>The collaborators\<close>

text \<open>
  The caption service, the generative model and the file system are outside the program.
  They are parameters of the model: a \<open>world\<close> says what each call answers. A call either
  raises (\<open>Inl\<close>) or returns (\<open>Inr\<close>); only exceptions that \<open>except Exception\<close> catches
  are modelled. \<open>UnboundLocalError\<close> is the one exception the program raises by itself.
\<close>

datatype exn = UnboundLocalError string | ServiceError string | OSError string

text \<open>What a fetch returns: the caption snippets, before \<open>TextFormatter\<close> joins them.\<close>

type_synonym raw = "pystr list"

text \<open>A caption track of \<open>list_transcripts\<close>, with what its \<open>fetch()\<close> answers.\<close>

record track =
  language_code :: pystr
  is_generated :: bool
  fetch :: "exn + raw"

text \<open>
  The two prompts are f-strings around the given texts; they are kept apart by a
  constructor each, which is all the program's control flow depends on.
\<close>

datatype prompt = TranslationPrompt pystr pystr | NotesPrompt pystr

record world =
  api_get_transcript :: "pystr \<Rightarrow> exn + raw"
  api_list_transcripts :: "pystr \<Rightarrow> exn + track list"
  format_transcript :: "raw \<Rightarrow> pystr"
  generate_content :: "prompt \<Rightarrow> exn + pystr"
  write_file :: "pystr \<Rightarrow> pystr \<Rightarrow> exn option"

text \<open>
  \<open>api_get_transcript w vid\<close> is \<open>YouTubeTranscriptApi.get_transcript(vid, languages=['en'])\<close>,
  \<open>generate_content w p\<close> is \<open>model.generate_content(p).text\<close>, and \<open>write_file w name text\<close>
  is \<open>open(name, "w", encoding="utf-8")\<close> followed by \<open>f.write(text)\<close>: \<open>None\<close> when both
  succeed, the exception otherwise. \<open>format_transcript w\<close> is
  \<open>TextFormatter().format_transcript\<close>, which joins the snippets into one text: a function
  of the caption library, without effect.
\<close>

text \<open>The lines the program prints, one constructor per \<open>print\<close> statement.\<close>

datatype msg =
    InvalidURL
  | ProcessingVideo pystr
  | CouldNotRetrieve
  | GeneratingNotes "pystr option"
  | CouldNotGenerate
  | ProcessingComplete
  | Translating pystr
  | ErrorGettingTranscript exn
  | ErrorGeneratingNotes exn
  | ErrorSavingFiles exn
  | FilesSaved pystr
  | SavedFull pystr
  | SavedNotes pystr
  | SavedSummary pystr
  | SavedTranscript pystr
  | FullContentSaved pystr

text \<open>What a run does to the outside, in order.\<close>

datatype event =
    Print msg
  | FetchEnglish pystr
  | ListTranscripts pystr
  | FetchTrack track
  | Generate prompt
  | Wrote pystr pystr
  | WriteFailed pystr pystr

section \<open>The transcript acquirer\<close>

text \<open>The first loop of the fallback: the first track that is not generated.\<close>

fun first_manual :: "track list \<Rightarrow> track option" where
  "first_manual [] = None"
| "first_manual (t # ts) = (if \<not> is_generated t then Some t else first_manual ts)"

text \<open>The loop of its \<open>else\<close> branch: the first generated track.\<close>

fun first_generated :: "track list \<Rightarrow> track option" where
  "first_generated [] = None"
| "first_generated (t # ts) = (if is_generated t then Some t else first_generated ts)"

text \<open>
  Lines 56 to 75: format the fetched snippets, translate them unless the language is
  \<open>en\<close>, and return the pair.
\<close>

definition format_and_translate ::
  "world \<Rightarrow> raw \<Rightarrow> pystr \<Rightarrow> (exn + pystr \<times> pystr) \<times> event list" where
  "format_and_translate w transcript_list detected_language =
     (let text_transcript = format_transcript w transcript_list in
      if detected_language \<noteq> py ''en'' then
        (let translation_prompt = TranslationPrompt detected_language text_transcript in
         case generate_content w translation_prompt of
           Inl e \<Rightarrow> (Inl e, [Print (Translating detected_language), Generate translation_prompt])
         | Inr text \<Rightarrow>
             (Inr (text, detected_language),
              [Print (Translating detected_language), Generate translation_prompt]))
      else (Inr (text_transcript, detected_language), []))"

text \<open>The fetch of the chosen track, then lines 56 to 75.\<close>

definition fetch_track :: "world \<Rightarrow> track \<Rightarrow> (exn + pystr \<times> pystr) \<times> event list" where
  "fetch_track w t =
     (case fetch t of
        Inl e \<Rightarrow> (Inl e, [FetchTrack t])
      | Inr transcript_list \<Rightarrow>
          (case format_and_translate w transcript_list (language_code t) of
             (r, evs) \<Rightarrow> (r, FetchTrack t # evs)))"

text \<open>
  The body of the outer \<open>try\<close>. When neither loop chooses a track, \<open>transcript_list\<close> is
  not bound, and reading it at line 57 raises \<open>UnboundLocalError\<close>.
\<close>

definition get_transcript_body :: "world \<Rightarrow> pystr \<Rightarrow> (exn + pystr \<times> pystr) \<times> event list" where
  "get_transcript_body w video_id =
     (case api_get_transcript w video_id of
        Inr transcript_list \<Rightarrow>
          (case format_and_translate w transcript_list (py ''en'') of
             (r, evs) \<Rightarrow> (r, FetchEnglish video_id # evs))
      | Inl _ \<Rightarrow>
          (case api_list_transcripts w video_id of
             Inl e \<Rightarrow> (Inl e, [FetchEnglish video_id, ListTranscripts video_id])
           | Inr transcript \<Rightarrow>
               (case (case first_manual transcript of
                        Some t \<Rightarrow> fetch_track w t
                      | None \<Rightarrow>
                          (case first_generated transcript of
                             Some t \<Rightarrow> fetch_track w t
                           | None \<Rightarrow> (Inl (UnboundLocalError ''transcript_list''), []))) of
                  (r, evs) \<Rightarrow> (r, FetchEnglish video_id # ListTranscripts video_id # evs))))"

text \<open>The outer \<open>except\<close>: any exception is printed and \<open>(None, None)\<close> returned.\<close>

definition get_transcript :: "world \<Rightarrow> pystr \<Rightarrow> (pystr option \<times> pystr option) \<times> event list" where
  "get_transcript w video_id =
     (case get_transcript_body w video_id of
        (Inr (text_transcript, detected_language), evs) \<Rightarrow>
          ((Some text_transcript, Some detected_language), evs)
      | (Inl e, evs) \<Rightarrow> ((None, None), evs @ [Print (ErrorGettingTranscript e)]))"

section \<open>The notes generator\<close>

definition generate_notes_with_gemini :: "world \<Rightarrow> pystr \<Rightarrow> pystr option \<times> event list" where
  "generate_notes_with_gemini w transcript =
     (case generate_content w (NotesPrompt transcript) of
        Inr text \<Rightarrow> (Some text, [Generate (NotesPrompt transcript)])
      | Inl e \<Rightarrow> (None, [Generate (NotesPrompt transcript), Print (ErrorGeneratingNotes e)]))"

section \<open>The output writer\<close>

text \<open>One \<open>with open(...) as f: f.write(...)\<close>: the exception, if any, and the event.\<close>

definition write_text :: "world \<Rightarrow> pystr \<Rightarrow> pystr \<Rightarrow> exn option \<times> event list" where
  "write_text w name text =
     (case write_file w name text of
        None \<Rightarrow> (None, [Wrote name text])
      | Some e \<Rightarrow> (Some e, [WriteFailed name text]))"

text \<open>The body of the \<open>try\<close> of \<open>save_to_file\<close>: the exception that leaves it, if any.\<close>

definition save_to_file_body :: "world \<Rightarrow> pystr \<Rightarrow> pystr \<Rightarrow> exn option \<times> event list" where
  "save_to_file_body w content filename =
     (case write_text w (filename @ py ''_full.txt'') content of
        (Some e, evs) \<Rightarrow> (Some e, evs)
      | (None, evs) \<Rightarrow>
          (let parts = split content (py ''SUMMARY:'') in
           if length parts = 2 then
             (let notes = strip (replace (parts ! 0) (py ''NOTES:'') []);
                  summary = strip (parts ! 1) in
              case write_text w (filename @ py ''_notes.txt'') notes of
                (Some e, evs1) \<Rightarrow> (Some e, evs @ evs1)
              | (None, evs1) \<Rightarrow>
                  (case write_text w (filename @ py ''_summary.txt'') summary of
                     (Some e, evs2) \<Rightarrow> (Some e, evs @ evs1 @ evs2)
                   | (None, evs2) \<Rightarrow>
                       (None, evs @ evs1 @ evs2 @
                          [Print (FilesSaved filename), Print (SavedFull filename),
                           Print (SavedNotes filename), Print (SavedSummary filename),
                           Print (SavedTranscript filename)])))
           else (None, evs @ [Print (FullContentSaved filename)])))"

text \<open>\<open>save_to_file\<close> returns nothing; its \<open>except\<close> prints the exception.\<close>

definition save_to_file :: "world \<Rightarrow> pystr \<Rightarrow> pystr \<Rightarrow> event list" where
  "save_to_file w content filename =
     (case save_to_file_body w content filename of
        (None, evs) \<Rightarrow> evs
      | (Some e, evs) \<Rightarrow> evs @ [Print (ErrorSavingFiles e)])"

section \<open>The orchestrator\<close>

text \<open>\<open>not x\<close> for a value that is \<open>None\<close> or a string.\<close>

definition falsy :: "pystr option \<Rightarrow> bool" where
  "falsy x \<longleftrightarrow> x = None \<or> x = Some []"

text \<open>
  \<open>process_youtube_video\<close>: \<open>Inr ()\<close> when it returns, \<open>Inl e\<close> when the exception \<open>e\<close>
  leaves it. The write of the raw transcript (lines 159 and 160) is in no \<open>try\<close>.
\<close>

definition process_youtube_video :: "world \<Rightarrow> pystr \<Rightarrow> (exn + unit) \<times> event list" where
  "process_youtube_video w url =
     (let video_id = extract_video_id url in
      if falsy video_id then (Inr (), [Print InvalidURL])
      else
        (let vid = the video_id in
         case get_transcript w vid of
           ((transcript, language), evs1) \<Rightarrow>
             if falsy transcript
             then (Inr (), Print (ProcessingVideo vid) # evs1 @ [Print CouldNotRetrieve])
             else
               (case write_text w (py ''video_'' @ vid @ py ''_transcript.txt'') (the transcript) of
                  (Some e, evs2) \<Rightarrow> (Inl e, Print (ProcessingVideo vid) # evs1 @ evs2)
                | (None, evs2) \<Rightarrow>
                    (case generate_notes_with_gemini w (the transcript) of
                       (notes_content, evs3) \<Rightarrow>
                         if falsy notes_content
                         then (Inr (),
                               Print (ProcessingVideo vid) # evs1 @ evs2 @
                               Print (GeneratingNotes language) # evs3 @ [Print CouldNotGenerate])
                         else (Inr (),
                               Print (ProcessingVideo vid) # evs1 @ evs2 @
                               Print (GeneratingNotes language) # evs3 @
                               save_to_file w (the notes_content) (py ''video_'' @ vid) @
                               [Print ProcessingComplete])))))"

section \<open>Reading a run\<close>

text \<open>The tracks whose \<open>fetch()\<close> was called, in order.\<close>

fun fetched :: "event list \<Rightarrow> track list" where
  "fetched [] = []"
| "fetched (FetchTrack t # evs) = t # fetched evs"
| "fetched (_ # evs) = fetched evs"


definition is_generate :: "event \<Rightarrow> bool" where
  "is_generate ev = (case ev of Generate _ \<Rightarrow> True | _ \<Rightarrow> False)"


section \<open>Example worlds\<close>

text \<open>No English track; a generated German one comes before a manual French one.\<close>

definition tracks_de_fr_es :: "track list" where
  "tracks_de_fr_es =
     [\<lparr>language_code = py ''de'', is_generated = True, fetch = Inr [py ''eins'']\<rparr>,
      \<lparr>language_code = py ''fr'', is_generated = False, fetch = Inr [py ''un'']\<rparr>,
      \<lparr>language_code = py ''es'', is_generated = True, fetch = Inr [py ''uno'']\<rparr>]"

definition world_no_english :: world where
  "world_no_english =
     \<lparr>api_get_transcript = (\<lambda>vid. Inl (ServiceError ''NoTranscriptFound'')),
      api_list_transcripts = (\<lambda>vid. Inr tracks_de_fr_es),
      format_transcript = concat,
      generate_content = (\<lambda>p. Inr (py ''one'')),
      write_file = (\<lambda>name text. None)\<rparr>"

text \<open>An English track, a model that answers with both sections, and a working disk.\<close>

definition world_english :: world where
  "world_english =
     \<lparr>api_get_transcript = (\<lambda>vid. Inr [py ''hello'']),
      api_list_transcripts = (\<lambda>vid. Inr []),
      format_transcript = concat,
      generate_content = (\<lambda>p. Inr (py ''NOTES: a SUMMARY: b'')),
      write_file = (\<lambda>name text. None)\<rparr>"

text \<open>No English track and an empty enumeration.\<close>

definition world_no_captions :: world where
  "world_no_captions =
     \<lparr>api_get_transcript = (\<lambda>vid. Inl (ServiceError ''NoTranscriptFound'')),
      api_list_transcripts = (\<lambda>vid. Inr []),
      format_transcript = concat,
      generate_content = (\<lambda>p. Inr (py ''NOTES: a SUMMARY: b'')),
      write_file = (\<lambda>name text. None)\<rparr>"

text \<open>An English track without any snippet: the formatted text is empty.\<close>

definition world_empty_transcript :: world where
  "world_empty_transcript =
     \<lparr>api_get_transcript = (\<lambda>vid. Inr []),
      api_list_transcripts = (\<lambda>vid. Inr []),
      format_transcript = concat,
      generate_content = (\<lambda>p. Inr (py ''NOTES: a SUMMARY: b'')),
      write_file = (\<lambda>name text. None)\<rparr>"

text \<open>A model that answers with the empty text, and one that raises.\<close>

definition world_empty_notes :: world where
  "world_empty_notes =
     \<lparr>api_get_transcript = (\<lambda>vid. Inr [py ''hello'']),
      api_list_transcripts = (\<lambda>vid. Inr []),
      format_transcript = concat,
      generate_content = (\<lambda>p. Inr []),
      write_file = (\<lambda>name text. None)\<rparr>"

definition world_model_down :: world where
  "world_model_down =
     \<lparr>api_get_transcript = (\<lambda>vid. Inr [py ''hello'']),
      api_list_transcripts = (\<lambda>vid. Inr []),
      format_transcript = concat,
      generate_content = (\<lambda>p. Inl (ServiceError ''ResourceExhausted'')),
      write_file = (\<lambda>name text. None)\<rparr>"

text \<open>An English track, and a directory in which no file can be opened for writing.\<close>

definition world_read_only :: world where
  "world_read_only =
     \<lparr>api_get_transcript = (\<lambda>vid. Inr [py ''hello'']),
      api_list_transcripts = (\<lambda>vid. Inr []),
      format_transcript = concat,
      generate_content = (\<lambda>p. Inr (py ''NOTES: a SUMMARY: b'')),
      write_file = (\<lambda>name text. Some (OSError ''Read-only file system''))\<rparr>"

section \<open>Reading the writer's input and output\<close>

text \<open>The number of positions of \<open>s\<close> at which \<open>sep\<close> occurs.\<close>

fun occurrences :: "pystr \<Rightarrow> pystr \<Rightarrow> nat" where
  "occurrences sep [] = (if sep = [] then 1 else 0)"
| "occurrences sep (c # cs) = (if prefix sep (c # cs) then 1 else 0) + occurrences sep cs"

text \<open>A text without its white space.\<close>

definition del_ws :: "pystr \<Rightarrow> pystr" where
  "del_ws s = filter (\<lambda>c. \<not> isspace c) s"

text \<open>
  The specification's reading of the notes file: part one without its surrounding white
  space and without a leading \<open>NOTES:\<close> label, the rest of part one kept as it is.
\<close>

definition spec_notes :: "pystr \<Rightarrow> pystr" where
  "spec_notes part =
     (let s = strip part in
      strip (case lit (py ''NOTES:'') s of Some rest \<Rightarrow> rest | None \<Rightarrow> s))"

text \<open>
  The specification's comparison of texts "ignoring label strings and whitespace": both
  labels are taken out, then the white space.
\<close>

definition ignore_labels_ws :: "pystr \<Rightarrow> pystr" where
  "ignore_labels_ws s = del_ws (replace (replace s (py ''NOTES:'') []) (py ''SUMMARY:'') [])"

section \<open>Reading a URL\<close>

text \<open>
  The URL shapes of the specification, as statements about the text. At offset \<open>n\<close> of
  \<open>url\<close> stands \<open>youtube.com/watch?v=\<close>, \<open>youtu.be/\<close> or \<open>youtube.com/embed/\<close>,
  followed by the identifier \<open>vid\<close>.
\<close>

definition shape1_at :: "pystr \<Rightarrow> nat \<Rightarrow> pystr \<Rightarrow> bool" where
  "shape1_at url n vid \<longleftrightarrow>
     length vid = 11 \<and> list_all idchar vid \<and>
     (prefix (py ''youtube.com/watch?v='' @ vid) (drop n url) \<or>
      prefix (py ''youtu.be/'' @ vid) (drop n url) \<or>
      prefix (py ''youtube.com/embed/'' @ vid) (drop n url))"

text \<open>
  At offset \<open>n\<close> of \<open>url\<close> stands \<open>youtube.com/watch?\<close> (18 characters), followed by
  \<open>k\<close> characters of other query parameters on one line, then \<open>&v=\<close> and the identifier
  \<open>vid\<close>.
\<close>

definition shape2_at :: "pystr \<Rightarrow> nat \<Rightarrow> nat \<Rightarrow> pystr \<Rightarrow> bool" where
  "shape2_at url n k vid \<longleftrightarrow>
     length vid = 11 \<and> list_all idchar vid \<and>
     prefix (py ''youtube.com/watch?'') (drop n url) \<and>
     10 \<notin> set (take k (drop (n + 18) url)) \<and>
     prefix (py ''&v='' @ vid) (drop (n + 18 + k) url)"

section \<open>Properties of the URL parser\<close>

lemma id11_Some: "id11 s = Some g \<Longrightarrow> length g = 11 \<and> list_all idchar g"
  by (auto simp: id11_def split: if_splits)

lemma bind_id11_Some: "Option.bind x id11 = Some g \<Longrightarrow> length g = 11 \<and> list_all idchar g"
  by (cases x) (auto dest: id11_Some)

lemma pattern1_at_Some: "pattern1_at s = Some g \<Longrightarrow> length g = 11 \<and> list_all idchar g"
  unfolding pattern1_at_def
  by (auto split: option.splits dest: bind_id11_Some)

lemma lazy_amp_v_Some: "lazy_amp_v s = Some g \<Longrightarrow> length g = 11 \<and> list_all idchar g"
proof (induction s)
  case Nil
  then show ?case by simp
next
  case (Cons c cs)
  then show ?case
    by (auto split: option.splits if_splits dest: bind_id11_Some)
qed

lemma pattern2_at_Some: "pattern2_at s = Some g \<Longrightarrow> length g = 11 \<and> list_all idchar g"
  unfolding pattern2_at_def
  by (cases "lit (py ''youtube.com/watch?'') s") (auto dest: lazy_amp_v_Some)

lemma re_search_Some:
  assumes "\<And>s g. m s = Some g \<Longrightarrow> P g"
  shows "re_search m s = Some g \<Longrightarrow> P g"
  using assms by (induction s) (auto split: option.splits)

lemma extract_video_id_Some:
  assumes "extract_video_id url = Some g"
  shows "length g = 11 \<and> list_all idchar g"
proof (cases "re_search pattern1_at url")
  case None
  with assms have "re_search pattern2_at url = Some g"
    by (simp add: extract_video_id_def split: option.splits)
  then show ?thesis
    by (rule re_search_Some[where m = pattern2_at, rotated]) (rule pattern2_at_Some)
next
  case (Some a)
  with assms have "re_search pattern1_at url = Some g"
    by (simp add: extract_video_id_def)
  then show ?thesis
    by (rule re_search_Some[where m = pattern1_at, rotated]) (rule pattern1_at_Some)
qed

lemma extract_video_id_not_falsy: "extract_video_id url = Some vid \<Longrightarrow> \<not> falsy (Some vid)"
  by (auto simp: falsy_def dest: extract_video_id_Some)

lemma lit_Some_iff: "lit p s = Some r \<longleftrightarrow> s = p @ r"
  by (induction p s rule: lit.induct) auto

lemma lit_append: "lit p (p @ r) = Some r"
  by (simp add: lit_Some_iff)

lemma id11_append: "length vid = 11 \<Longrightarrow> list_all idchar vid \<Longrightarrow> id11 (vid @ rest) = Some vid"
  by (simp add: id11_def)

lemma pattern1_at_watch:
  assumes "length vid = 11" "list_all idchar vid"
  shows "pattern1_at (py ''youtube.com/watch?v='' @ vid @ rest) = Some vid"
  by (simp add: pattern1_at_def lit_append id11_append[OF assms])

lemma pattern1_at_short:
  assumes "length vid = 11" "list_all idchar vid"
  shows "pattern1_at (py ''youtu.be/'' @ vid @ rest) = Some vid"
proof -
  have "lit (py ''youtube.com/watch?v='') (py ''youtu.be/'' @ vid @ rest) = None"
    by (simp add: py_def)
  then show ?thesis
    by (simp add: pattern1_at_def lit_append id11_append[OF assms])
qed

lemma pattern1_at_embed:
  assumes "length vid = 11" "list_all idchar vid"
  shows "pattern1_at (py ''youtube.com/embed/'' @ vid @ rest) = Some vid"
proof -
  have "lit (py ''youtube.com/watch?v='') (py ''youtube.com/embed/'' @ vid @ rest) = None"
    "lit (py ''youtu.be/'') (py ''youtube.com/embed/'' @ vid @ rest) = None"
    by (simp_all add: py_def)
  then show ?thesis
    by (simp add: pattern1_at_def lit_append id11_append[OF assms])
qed

lemma extract_video_id_first:
  "re_search pattern1_at url = Some g \<Longrightarrow> extract_video_id url = Some g"
  by (simp add: extract_video_id_def)

lemma extract_video_id_second:
  "re_search pattern1_at url = None \<Longrightarrow> extract_video_id url = re_search pattern2_at url"
  by (simp add: extract_video_id_def split: option.splits)

lemma bind_lit_id11_iff:
  "Option.bind (lit p s) id11 = Some g \<longleftrightarrow>
     length g = 11 \<and> list_all idchar g \<and> prefix (p @ g) s"
proof
  assume a: "Option.bind (lit p s) id11 = Some g"
  then obtain r where r: "lit p s = Some r" and i: "id11 r = Some g"
    by (cases "lit p s") auto
  from i have g: "g = take 11 r" "11 \<le> length r" "list_all idchar (take 11 r)"
    by (auto simp: id11_def split: if_splits)
  from r have "s = p @ r" by (simp add: lit_Some_iff)
  with g show "length g = 11 \<and> list_all idchar g \<and> prefix (p @ g) s"
    by (simp add: take_is_prefix)
next
  assume a: "length g = 11 \<and> list_all idchar g \<and> prefix (p @ g) s"
  then obtain r where "s = p @ g @ r" by (auto simp: prefix_def)
  with a show "Option.bind (lit p s) id11 = Some g"
    by (simp add: lit_append id11_append)
qed

lemma pattern1_at_iff: "pattern1_at s = Some g \<longleftrightarrow> shape1_at s 0 g"
proof
  assume "pattern1_at s = Some g"
  then have "Option.bind (lit (py ''youtube.com/watch?v='') s) id11 = Some g
           \<or> Option.bind (lit (py ''youtu.be/'') s) id11 = Some g
           \<or> Option.bind (lit (py ''youtube.com/embed/'') s) id11 = Some g"
    unfolding pattern1_at_def by (auto split: option.splits)
  then show "shape1_at s 0 g"
    by (auto simp: shape1_at_def bind_lit_id11_iff)
next
  assume a: "shape1_at s 0 g"
  then have v: "length g = 11" "list_all idchar g"
    by (simp_all add: shape1_at_def)
  from a consider r where "s = py ''youtube.com/watch?v='' @ g @ r"
    | r where "s = py ''youtu.be/'' @ g @ r"
    | r where "s = py ''youtube.com/embed/'' @ g @ r"
    by (auto simp: shape1_at_def prefix_def)
  then show "pattern1_at s = Some g"
  proof cases
    case 1 then show ?thesis by (simp add: pattern1_at_watch[OF v])
  next
    case 2 then show ?thesis by (simp add: pattern1_at_short[OF v])
  next
    case 3 then show ?thesis by (simp add: pattern1_at_embed[OF v])
  qed
qed

lemma shape1_at_drop: "shape1_at url n g \<longleftrightarrow> shape1_at (drop n url) 0 g"
  by (simp add: shape1_at_def)

lemma shape2_at_drop: "shape2_at url n k g \<longleftrightarrow> shape2_at (drop n url) 0 k g"
  by (simp add: shape2_at_def ac_simps)

lemma lazy_amp_v_complete:
  "lazy_amp_v t = Some g \<Longrightarrow>
   \<exists>k. 10 \<notin> set (take k t) \<and> length g = 11 \<and> list_all idchar g \<and> prefix (py ''&v='' @ g) (drop k t)"
proof (induction t)
  case Nil
  then show ?case by simp
next
  case (Cons c cs)
  show ?case
  proof (cases "Option.bind (lit (py ''&v='') (c # cs)) id11")
    case (Some g')
    with Cons.prems have "g' = g" by simp
    with Some have "length g = 11 \<and> list_all idchar g \<and> prefix (py ''&v='' @ g) (c # cs)"
      by (simp add: bind_lit_id11_iff)
    then have "10 \<notin> set (take 0 (c # cs)) \<and> length g = 11 \<and> list_all idchar g \<and>
               prefix (py ''&v='' @ g) (drop 0 (c # cs))"
      by simp
    then show ?thesis by blast
  next
    case None
    with Cons.prems have c: "c \<noteq> 10" and l: "lazy_amp_v cs = Some g"
      by (auto split: if_splits)
    from Cons.IH[OF l] obtain k where
      "10 \<notin> set (take k cs) \<and> length g = 11 \<and> list_all idchar g \<and> prefix (py ''&v='' @ g) (drop k cs)"
      by blast
    with c have "10 \<notin> set (take (Suc k) (c # cs)) \<and> length g = 11 \<and> list_all idchar g \<and>
                 prefix (py ''&v='' @ g) (drop (Suc k) (c # cs))"
      by simp
    then show ?thesis by blast
  qed
qed

lemma lazy_amp_v_first:
  assumes "length g = 11" "list_all idchar g"
    and "prefix (py ''&v='' @ g) (drop k t)" and "10 \<notin> set (take k t)"
    and "\<forall>k'<k. \<forall>g'. \<not> (length g' = 11 \<and> list_all idchar g' \<and> prefix (py ''&v='' @ g') (drop k' t))"
  shows "lazy_amp_v t = Some g"
  using assms(3-5)
proof (induction t arbitrary: k)
  case Nil
  then show ?case by (simp add: py_def)
next
  case (Cons c cs)
  show ?case
  proof (cases k)
    case 0
    with Cons.prems(1) assms(1,2)
    have "Option.bind (lit (py ''&v='') (c # cs)) id11 = Some g"
      by (simp add: bind_lit_id11_iff)
    then show ?thesis by simp
  next
    case (Suc j)
    have "Option.bind (lit (py ''&v='') (c # cs)) id11 = None"
    proof (cases "Option.bind (lit (py ''&v='') (c # cs)) id11")
      case (Some g')
      then have "length g' = 11 \<and> list_all idchar g' \<and> prefix (py ''&v='' @ g') (drop 0 (c # cs))"
        by (simp add: bind_lit_id11_iff)
      with Cons.prems(3) Suc show ?thesis by blast
    qed simp
    moreover have "c \<noteq> 10" using Cons.prems(2) Suc by simp
    moreover have "lazy_amp_v cs = Some g"
    proof (rule Cons.IH[of j])
      show "prefix (py ''&v='' @ g) (drop j cs)" using Cons.prems(1) Suc by simp
      show "10 \<notin> set (take j cs)" using Cons.prems(2) Suc by simp
      show "\<forall>k'<j. \<forall>g'. \<not> (length g' = 11 \<and> list_all idchar g' \<and> prefix (py ''&v='' @ g') (drop k' cs))"
      proof (intro allI impI)
        fix k' g' assume "k' < j"
        then have "Suc k' < k" using Suc by simp
        with Cons.prems(3) show "\<not> (length g' = 11 \<and> list_all idchar g' \<and> prefix (py ''&v='' @ g') (drop k' cs))"
          by (metis drop_Suc_Cons)
      qed
    qed
    ultimately show ?thesis by simp
  qed
qed


lemma prefix_watch_drop:
  "prefix (py ''youtube.com/watch?'') s \<Longrightarrow> s = py ''youtube.com/watch?'' @ drop 18 s"
  by (auto simp: prefix_def py_def)

lemma pattern2_at_complete:
  assumes "pattern2_at s = Some g"
  shows "\<exists>k. shape2_at s 0 k g"
proof -
  from assms obtain t where t: "lit (py ''youtube.com/watch?'') s = Some t" and l: "lazy_amp_v t = Some g"
    unfolding pattern2_at_def by (cases "lit (py ''youtube.com/watch?'') s") auto
  from t have s: "s = py ''youtube.com/watch?'' @ t" by (simp add: lit_Some_iff)
  then have d: "drop 18 s = t" by (simp add: py_def)
  from lazy_amp_v_complete[OF l] obtain k where
    "10 \<notin> set (take k t) \<and> length g = 11 \<and> list_all idchar g \<and> prefix (py ''&v='' @ g) (drop k t)"
    by blast
  note k = this
  have p: "prefix (py ''youtube.com/watch?'') s"
    by (simp add: s)
  have e: "drop (18 + k) s = drop k t"
    unfolding d[symmetric] by (simp add: add.commute)
  have "shape2_at s 0 k g"
    unfolding shape2_at_def using k by (simp add: p e d)
  then show ?thesis by blast
qed

lemma pattern2_at_first:
  assumes "shape2_at s 0 k g" and "\<forall>k'<k. \<forall>g'. \<not> shape2_at s 0 k' g'"
  shows "pattern2_at s = Some g"
proof -
  let ?t = "drop 18 s"
  from assms(1) have v: "length g = 11" "list_all idchar g"
    and w: "prefix (py ''youtube.com/watch?'') s"
    and nl: "10 \<notin> set (take k ?t)"
    and p: "prefix (py ''&v='' @ g) (drop k ?t)"
    by (simp_all add: shape2_at_def add.commute)
  have m: "\<forall>k'<k. \<forall>g'. \<not> (length g' = 11 \<and> list_all idchar g' \<and> prefix (py ''&v='' @ g') (drop k' ?t))"
  proof (intro allI impI)
    fix k' g' assume k': "k' < k"
    have "set (take k' ?t) \<subseteq> set (take k ?t)"
      using k' by (intro set_take_subset_set_take) simp
    with nl have "10 \<notin> set (take k' ?t)" by blast
    moreover have "\<not> shape2_at s 0 k' g'" using assms(2) k' by blast
    ultimately show "\<not> (length g' = 11 \<and> list_all idchar g' \<and> prefix (py ''&v='' @ g') (drop k' ?t))"
      using w by (simp add: shape2_at_def add.commute)
  qed
  have "lazy_amp_v ?t = Some g"
    by (rule lazy_amp_v_first[OF v p nl m])
  moreover have "lit (py ''youtube.com/watch?'') s = Some ?t"
    using prefix_watch_drop[OF w] by (simp add: lit_Some_iff)
  ultimately show ?thesis by (simp add: pattern2_at_def)
qed

lemma re_search_first:
  assumes "m (drop n url) = Some g" and "\<forall>n'<n. m (drop n' url) = None"
  shows "re_search m url = Some g"
  using assms
proof (induction url arbitrary: n)
  case Nil
  then show ?case by simp
next
  case (Cons c cs)
  show ?case
  proof (cases n)
    case 0
    with Cons.prems(1) show ?thesis by simp
  next
    case (Suc j)
    with Cons.prems(2) have "m (drop 0 (c # cs)) = None" by blast
    then have a: "m (c # cs) = None" by simp
    have "re_search m cs = Some g"
    proof (rule Cons.IH[of j])
      show "m (drop j cs) = Some g" using Cons.prems(1) Suc by simp
      show "\<forall>n'<j. m (drop n' cs) = None"
      proof (intro allI impI)
        fix n' assume "n' < j"
        then have "Suc n' < n" using Suc by simp
        with Cons.prems(2) have "m (drop (Suc n') (c # cs)) = None" by blast
        then show "m (drop n' cs) = None" by simp
      qed
    qed
    with a show ?thesis by simp
  qed
qed

lemma re_search_none:
  assumes "\<forall>n. m (drop n url) = None"
  shows "re_search m url = None"
  using assms
proof (induction url)
  case Nil
  then show ?case by simp
next
  case (Cons c cs)
  from Cons.prems have "m (drop 0 (c # cs)) = None" by blast
  then have a: "m (c # cs) = None" by simp
  have "\<forall>n. m (drop n cs) = None"
  proof
    fix n
    from Cons.prems have "m (drop (Suc n) (c # cs)) = None" by blast
    then show "m (drop n cs) = None" by simp
  qed
  with Cons.IH a show ?case by simp
qed

lemma shape1_at_short: "length url \<le> n \<Longrightarrow> \<not> shape1_at url n g"
  by (simp add: shape1_at_def py_def)

lemma shape2_at_short: "length url \<le> n \<Longrightarrow> \<not> shape2_at url n k g"
  by (simp add: shape2_at_def py_def)

lemma pattern1_at_none:
  assumes "\<forall>n<length url. \<forall>g. \<not> shape1_at url n g"
  shows "re_search pattern1_at url = None"
proof (rule re_search_none, rule allI)
  fix n
  have "\<forall>g. \<not> shape1_at url n g"
    using assms shape1_at_short[of url n] by (cases "n < length url") auto
  then have "\<forall>g. pattern1_at (drop n url) \<noteq> Some g"
    by (simp add: pattern1_at_iff flip: shape1_at_drop)
  then show "pattern1_at (drop n url) = None"
    by (cases "pattern1_at (drop n url)") auto
qed

lemma pattern2_at_none_at:
  assumes "\<forall>k g. \<not> shape2_at url n k g"
  shows "pattern2_at (drop n url) = None"
proof (cases "pattern2_at (drop n url)")
  case (Some g)
  from pattern2_at_complete[OF this] obtain k where "shape2_at (drop n url) 0 k g" by blast
  then have "shape2_at url n k g" by (simp flip: shape2_at_drop)
  with assms show ?thesis by blast
qed simp

lemma pattern1_at_none_at:
  assumes "\<forall>g. \<not> shape1_at url n g"
  shows "pattern1_at (drop n url) = None"
proof (cases "pattern1_at (drop n url)")
  case (Some g)
  then have "shape1_at url n g" by (simp add: pattern1_at_iff flip: shape1_at_drop)
  with assms show ?thesis by blast
qed simp

lemma extract_family1:
  assumes "shape1_at url n vid" and "\<forall>n'<n. \<forall>g. \<not> shape1_at url n' g"
  shows "extract_video_id url = Some vid"
proof -
  have "pattern1_at (drop n url) = Some vid"
    using assms(1) by (simp add: pattern1_at_iff flip: shape1_at_drop)
  moreover have "\<forall>n'<n. pattern1_at (drop n' url) = None"
    using assms(2) by (auto intro: pattern1_at_none_at)
  ultimately have "re_search pattern1_at url = Some vid"
    by (rule re_search_first)
  then show ?thesis by (rule extract_video_id_first)
qed

lemma extract_family2:
  assumes "\<forall>n'<length url. \<forall>g. \<not> shape1_at url n' g"
    and "shape2_at url n k vid"
    and "\<forall>n'<n. \<forall>k' g. \<not> shape2_at url n' k' g"
    and "\<forall>k'<k. \<forall>g. \<not> shape2_at url n k' g"
  shows "extract_video_id url = Some vid"
proof -
  have first: "re_search pattern1_at url = None"
    by (rule pattern1_at_none[OF assms(1)])
  have "pattern2_at (drop n url) = Some vid"
  proof (rule pattern2_at_first[of _ k])
    show "shape2_at (drop n url) 0 k vid" using assms(2) by (simp flip: shape2_at_drop)
    show "\<forall>k'<k. \<forall>g'. \<not> shape2_at (drop n url) 0 k' g'"
      using assms(4) by (simp flip: shape2_at_drop)
  qed
  moreover have "\<forall>n'<n. pattern2_at (drop n' url) = None"
    using assms(3) by (auto intro: pattern2_at_none_at)
  ultimately have "re_search pattern2_at url = Some vid"
    by (rule re_search_first)
  then show ?thesis
    by (simp add: extract_video_id_second[OF first])
qed

lemma extract_neither:
  assumes "\<forall>n<length url. \<forall>g. \<not> shape1_at url n g"
    and "\<forall>n<length url. \<forall>k g. \<not> shape2_at url n k g"
  shows "extract_video_id url = None"
proof -
  have first: "re_search pattern1_at url = None"
    by (rule pattern1_at_none[OF assms(1)])
  have "re_search pattern2_at url = None"
  proof (rule re_search_none, rule allI)
    fix n
    have "\<forall>k g. \<not> shape2_at url n k g"
      using assms(2) shape2_at_short[of url n] by (cases "n < length url") auto
    then show "pattern2_at (drop n url) = None" by (rule pattern2_at_none_at)
  qed
  then show ?thesis
    by (simp add: extract_video_id_second[OF first])
qed

lemma shape1_at_iff_decomp:
  "shape1_at url n vid \<longleftrightarrow>
     length vid = 11 \<and> list_all idchar vid \<and>
     (\<exists>pre rest. length pre = n \<and>
        (url = pre @ py ''youtube.com/watch?v='' @ vid @ rest \<or>
         url = pre @ py ''youtu.be/'' @ vid @ rest \<or>
         url = pre @ py ''youtube.com/embed/'' @ vid @ rest))"
proof
  assume a: "shape1_at url n vid"
  then have v: "length vid = 11" "list_all idchar vid"
    by (simp_all add: shape1_at_def)
  from a obtain l where l: "l = py ''youtube.com/watch?v='' \<or> l = py ''youtu.be/'' \<or> l = py ''youtube.com/embed/''"
    and p: "prefix (l @ vid) (drop n url)"
    by (auto simp: shape1_at_def)
  from p obtain rest where r: "drop n url = l @ vid @ rest"
    by (auto simp: prefix_def)
  from l have "l \<noteq> []" by (auto simp: py_def)
  with r have "n < length url" by (cases "n < length url") auto
  then have "length (take n url) = n" by simp
  moreover have "url = take n url @ l @ vid @ rest"
    using r append_take_drop_id[of n url] by simp
  ultimately show "length vid = 11 \<and> list_all idchar vid \<and>
     (\<exists>pre rest. length pre = n \<and>
        (url = pre @ py ''youtube.com/watch?v='' @ vid @ rest \<or>
         url = pre @ py ''youtu.be/'' @ vid @ rest \<or>
         url = pre @ py ''youtube.com/embed/'' @ vid @ rest))"
    using v l by blast
next
  assume "length vid = 11 \<and> list_all idchar vid \<and>
     (\<exists>pre rest. length pre = n \<and>
        (url = pre @ py ''youtube.com/watch?v='' @ vid @ rest \<or>
         url = pre @ py ''youtu.be/'' @ vid @ rest \<or>
         url = pre @ py ''youtube.com/embed/'' @ vid @ rest))"
  then show "shape1_at url n vid"
    by (auto simp: shape1_at_def)
qed

lemma shape2_at_iff_decomp:
  "shape2_at url n k vid \<longleftrightarrow>
     length vid = 11 \<and> list_all idchar vid \<and>
     (\<exists>pre mid rest. length pre = n \<and> length mid = k \<and> 10 \<notin> set mid \<and>
        url = pre @ py ''youtube.com/watch?'' @ mid @ py ''&v='' @ vid @ rest)"
proof
  assume a: "shape2_at url n k vid"
  let ?s = "drop n url" and ?t = "drop (n + 18) url"
  from a have v: "length vid = 11" "list_all idchar vid"
    and w: "prefix (py ''youtube.com/watch?'') ?s"
    and nl: "10 \<notin> set (take k ?t)"
    and p: "prefix (py ''&v='' @ vid) (drop (n + 18 + k) url)"
    by (simp_all add: shape2_at_def)
  have t: "?t = drop 18 ?s" by (simp add: add.commute)
  have s: "?s = py ''youtube.com/watch?'' @ ?t"
    unfolding t by (rule prefix_watch_drop[OF w])
  from p obtain rest where r: "drop (n + 18 + k) url = py ''&v='' @ vid @ rest"
    by (auto simp: prefix_def)
  have dk: "drop k ?t = py ''&v='' @ vid @ rest"
    using r by (simp add: add.commute)
  have "drop k ?t \<noteq> []" unfolding dk by (simp add: py_def)
  then have lk: "length (take k ?t) = k" by simp
  have "?s \<noteq> []" using s by (simp add: py_def)
  then have ln: "length (take n url) = n" by simp
  have "?t = take k ?t @ py ''&v='' @ vid @ rest"
    using dk append_take_drop_id[of k ?t] by simp
  with s have "?s = py ''youtube.com/watch?'' @ take k ?t @ py ''&v='' @ vid @ rest"
    by simp
  then have "url = take n url @ py ''youtube.com/watch?'' @ take k ?t @ py ''&v='' @ vid @ rest"
    using append_take_drop_id[of n url] by simp
  with ln lk nl v show "length vid = 11 \<and> list_all idchar vid \<and>
     (\<exists>pre mid rest. length pre = n \<and> length mid = k \<and> 10 \<notin> set mid \<and>
        url = pre @ py ''youtube.com/watch?'' @ mid @ py ''&v='' @ vid @ rest)"
    by blast
next
  assume "length vid = 11 \<and> list_all idchar vid \<and>
     (\<exists>pre mid rest. length pre = n \<and> length mid = k \<and> 10 \<notin> set mid \<and>
        url = pre @ py ''youtube.com/watch?'' @ mid @ py ''&v='' @ vid @ rest)"
  then obtain pre mid rest where v: "length vid = 11" "list_all idchar vid"
    and l: "length pre = n" "length mid = k" and nl: "10 \<notin> set mid"
    and u: "url = pre @ py ''youtube.com/watch?'' @ mid @ py ''&v='' @ vid @ rest"
    by blast
  have lw: "length (py ''youtube.com/watch?'') = 18" by (simp add: py_def)
  have a: "drop n url = py ''youtube.com/watch?'' @ mid @ py ''&v='' @ vid @ rest"
    using u l by simp
  have b: "drop (n + 18) url = mid @ py ''&v='' @ vid @ rest"
    using u l lw by simp
  have c: "drop (n + 18 + k) url = py ''&v='' @ vid @ rest"
    using u l lw by simp
  show "shape2_at url n k vid"
    unfolding shape2_at_def a b c using v l nl by simp
qed

lemma all_less_numeral:
  "(\<forall>i<numeral k. P i) \<longleftrightarrow> (\<forall>i<pred_numeral k. P i) \<and> P (pred_numeral k)"
  by (subst numeral_eq_Suc) (auto simp: less_Suc_eq)

text \<open>
  C1. \<open>extract_video_id\<close> is total: for every string it returns \<open>None\<close> or eleven
  characters of the class \<open>[a-zA-Z0-9_-]\<close>, and which of them is fixed by where the URL
  shapes stand in the string. When an identifier \<open>vid\<close> follows \<open>youtube.com/watch?v=\<close>,
  \<open>youtu.be/\<close> or \<open>youtube.com/embed/\<close> at offset \<open>n\<close> and none does at a smaller
  offset, the result is \<open>vid\<close>, whatever the second pattern would find. When no
  identifier stands in one of these three shapes, and at offset \<open>n\<close> stands
  \<open>youtube.com/watch?\<close>, then \<open>k\<close> characters other than a line feed, then \<open>&v=\<close> and
  \<open>vid\<close>, with no such place at a smaller offset and none at \<open>n\<close> with fewer than \<open>k\<close>
  characters between, the result is \<open>vid\<close>. When neither shape stands anywhere, the result
  is \<open>None\<close>.
\<close>

theorem extract_video_id_spec:
  "(extract_video_id url = None \<or>
      (\<exists>g. extract_video_id url = Some g \<and> length g = 11 \<and> list_all idchar g))
   \<and> (shape1_at url n vid \<and> (\<forall>n'<n. \<forall>g. \<not> shape1_at url n' g) \<longrightarrow>
        extract_video_id url = Some vid)
   \<and> ((\<forall>n'<length url. \<forall>g. \<not> shape1_at url n' g) \<and> shape2_at url n k vid \<and>
       (\<forall>n'<n. \<forall>k' g. \<not> shape2_at url n' k' g) \<and> (\<forall>k'<k. \<forall>g. \<not> shape2_at url n k' g) \<longrightarrow>
        extract_video_id url = Some vid)
   \<and> ((\<forall>n'<length url. \<forall>g. \<not> shape1_at url n' g) \<and>
       (\<forall>n'<length url. \<forall>k' g. \<not> shape2_at url n' k' g) \<longrightarrow>
        extract_video_id url = None)"
proof (intro conjI impI)
  show "extract_video_id url = None \<or>
      (\<exists>g. extract_video_id url = Some g \<and> length g = 11 \<and> list_all idchar g)"
    using extract_video_id_Some[of url] by (cases "extract_video_id url") auto
next
  assume "shape1_at url n vid \<and> (\<forall>n'<n. \<forall>g. \<not> shape1_at url n' g)"
  then show "extract_video_id url = Some vid"
    using extract_family1[of url n vid] by blast
next
  assume "(\<forall>n'<length url. \<forall>g. \<not> shape1_at url n' g) \<and> shape2_at url n k vid \<and>
       (\<forall>n'<n. \<forall>k' g. \<not> shape2_at url n' k' g) \<and> (\<forall>k'<k. \<forall>g. \<not> shape2_at url n k' g)"
  then show "extract_video_id url = Some vid"
    using extract_family2[of url n k vid] by blast
next
  assume "(\<forall>n'<length url. \<forall>g. \<not> shape1_at url n' g) \<and>
       (\<forall>n'<length url. \<forall>k' g. \<not> shape2_at url n' k' g)"
  then show "extract_video_id url = None"
    using extract_neither[of url] by blast
qed

theorem extract_video_id_spec_witness:
  "extract_video_id (py ''https://www.youtube.com/watch?v=dQw4w9WgXcQ&t=42s'') = Some (py ''dQw4w9WgXcQ'')
   \<and> extract_video_id (py ''https://youtu.be/dQw4w9WgXcQ?t=1'') = Some (py ''dQw4w9WgXcQ'')
   \<and> extract_video_id (py ''https://www.youtube.com/embed/dQw4w9WgXcQ'') = Some (py ''dQw4w9WgXcQ'')
   \<and> extract_video_id (py ''https://www.youtube.com/watch?a=1&b=2&v=dQw4w9WgXcQ'') = Some (py ''dQw4w9WgXcQ'')
   \<and> extract_video_id
        (py ''https://play.example/youtube.com/watch?feature=youtu.be&v=dQw4w9WgXcQ&t=1.5'')
         = Some (py ''dQw4w9WgXcQ'')
   \<and> shape2_at (py ''youtube.com/watch?x=1&v=BBBBBBBBBBB youtu.be/AAAAAAAAAAA'') 0 3 (py ''BBBBBBBBBBB'')
   \<and> extract_video_id (py ''youtube.com/watch?x=1&v=BBBBBBBBBBB youtu.be/AAAAAAAAAAA'')
         = Some (py ''AAAAAAAAAAA'')
   \<and> extract_video_id (py ''https://example.com/watch'') = None"
proof -
  let ?id = "py ''dQw4w9WgXcQ''"
  have u1: "extract_video_id (py ''https://www.youtube.com/watch?v=dQw4w9WgXcQ&t=42s'') = Some ?id"
    using extract_video_id_spec
      [where url = "py ''https://www.youtube.com/watch?v=dQw4w9WgXcQ&t=42s''" and n = 12 and vid = ?id]
    by (simp add: all_less_numeral shape1_at_def py_def idchar_def)
  have u2: "extract_video_id (py ''https://youtu.be/dQw4w9WgXcQ?t=1'') = Some ?id"
    using extract_video_id_spec
      [where url = "py ''https://youtu.be/dQw4w9WgXcQ?t=1''" and n = 8 and vid = ?id]
    by (simp add: all_less_numeral shape1_at_def py_def idchar_def)
  have u3: "extract_video_id (py ''https://www.youtube.com/embed/dQw4w9WgXcQ'') = Some ?id"
    using extract_video_id_spec
      [where url = "py ''https://www.youtube.com/embed/dQw4w9WgXcQ''" and n = 12 and vid = ?id]
    by (simp add: all_less_numeral shape1_at_def py_def idchar_def)
  have u4: "extract_video_id (py ''https://www.youtube.com/watch?a=1&b=2&v=dQw4w9WgXcQ'') = Some ?id"
  proof -
    let ?u = "py ''https://www.youtube.com/watch?a=1&b=2&v=dQw4w9WgXcQ''"
    have l: "length ?u = 51" by (simp add: py_def)
    have a: "\<forall>n'<length ?u. \<forall>g. \<not> shape1_at ?u n' g"
      unfolding l by (simp add: all_less_numeral shape1_at_def py_def)
    have b: "shape2_at ?u 12 7 ?id"
      by (simp add: shape2_at_def py_def idchar_def)
    have c: "\<forall>n'<12. \<forall>k' g. \<not> shape2_at ?u n' k' g"
      by (simp add: all_less_numeral shape2_at_def py_def)
    have d: "\<forall>k'<7. \<forall>g. \<not> shape2_at ?u 12 k' g"
      by (simp add: all_less_numeral shape2_at_def py_def)
    show ?thesis
      using extract_video_id_spec [where url = ?u and n = 12 and k = 7 and vid = ?id] a b c d
      by blast
  qed
  have u5: "extract_video_id
      (py ''https://play.example/youtube.com/watch?feature=youtu.be&v=dQw4w9WgXcQ&t=1.5'') = Some ?id"
  proof -
    let ?u = "py ''https://play.example/youtube.com/watch?feature=youtu.be&v=dQw4w9WgXcQ&t=1.5''"
    have l: "length ?u = 75" by (simp add: py_def)
    have a: "\<forall>n'<length ?u. \<forall>g. \<not> shape1_at ?u n' g"
      unfolding l by (simp add: all_less_numeral shape1_at_def py_def)
    have b: "shape2_at ?u 21 16 ?id"
      by (simp add: shape2_at_def py_def idchar_def)
    have c: "\<forall>n'<21. \<forall>k' g. \<not> shape2_at ?u n' k' g"
      by (simp add: all_less_numeral shape2_at_def py_def)
    have d: "\<forall>k'<16. \<forall>g. \<not> shape2_at ?u 21 k' g"
      by (simp add: all_less_numeral shape2_at_def py_def)
    show ?thesis
      using extract_video_id_spec [where url = ?u and n = 21 and k = 16 and vid = ?id] a b c d
      by blast
  qed
  have s6: "shape2_at (py ''youtube.com/watch?x=1&v=BBBBBBBBBBB youtu.be/AAAAAAAAAAA'') 0 3
              (py ''BBBBBBBBBBB'')"
    by (simp add: shape2_at_def py_def idchar_def)
  have u6: "extract_video_id (py ''youtube.com/watch?x=1&v=BBBBBBBBBBB youtu.be/AAAAAAAAAAA'')
              = Some (py ''AAAAAAAAAAA'')"
    using extract_video_id_spec
      [where url = "py ''youtube.com/watch?x=1&v=BBBBBBBBBBB youtu.be/AAAAAAAAAAA''" and n = 36
         and vid = "py ''AAAAAAAAAAA''"]
    by (simp add: all_less_numeral shape1_at_def py_def idchar_def)
  have u7: "extract_video_id (py ''https://example.com/watch'') = None"
  proof -
    let ?u = "py ''https://example.com/watch''"
    have l: "length ?u = 25" by (simp add: py_def)
    have a: "\<forall>n'<length ?u. \<forall>g. \<not> shape1_at ?u n' g"
      unfolding l by (simp add: all_less_numeral shape1_at_def py_def)
    have b: "\<forall>n'<length ?u. \<forall>k' g. \<not> shape2_at ?u n' k' g"
      unfolding l by (simp add: all_less_numeral shape2_at_def py_def)
    show ?thesis
      using extract_video_id_spec [where url = ?u] a b by blast
  qed
  from u1 u2 u3 u4 u5 s6 u6 u7 show ?thesis by blast
qed

section \<open>Properties of the transcript acquirer\<close>

text \<open>
  C7. When the direct English fetch succeeds, the acquirer returns the formatted text of
  that fetch with the language code \<open>en\<close>, and the fetch is all it does: no call of the
  generative model, so no translation.
\<close>

theorem english_fetch_no_translation:
  assumes "api_get_transcript w vid = Inr r"
  shows "get_transcript w vid =
           ((Some (format_transcript w r), Some (py ''en'')), [FetchEnglish vid])
         \<and> filter is_generate (snd (get_transcript w vid)) = []"
  using assms
  by (simp add: get_transcript_def get_transcript_body_def format_and_translate_def is_generate_def)

theorem english_fetch_no_translation_witness:
  "get_transcript world_english (py ''dQw4w9WgXcQ'') =
     ((Some (py ''hello''), Some (py ''en'')), [FetchEnglish (py ''dQw4w9WgXcQ'')])"
  using english_fetch_no_translation [of world_english "py ''dQw4w9WgXcQ''" "[py ''hello'']"]
  by (simp add: world_english_def)

lemma first_manual_split:
  "\<forall>g\<in>set pre. is_generated g \<Longrightarrow> \<not> is_generated t \<Longrightarrow> first_manual (pre @ t # post) = Some t"
  by (induction pre) auto

lemma first_manual_None: "first_manual ts = None \<longleftrightarrow> (\<forall>x\<in>set ts. is_generated x)"
  by (induction ts) auto

lemma first_manual_Some: "first_manual ts = Some t \<Longrightarrow> \<not> is_generated t \<and> t \<in> set ts"
  by (induction ts) (auto split: if_splits)

lemma first_generated_Some: "first_generated ts = Some t \<Longrightarrow> is_generated t \<and> t \<in> set ts"
  by (induction ts) (auto split: if_splits)

lemma fetched_append: "fetched (xs @ ys) = fetched xs @ fetched ys"
  by (induction xs rule: fetched.induct) auto

lemma fetched_format: "fetched (snd (format_and_translate w r lang)) = []"
  by (auto simp: format_and_translate_def Let_def split: sum.splits)

lemma fetched_fetch_track: "fetched (snd (fetch_track w t)) = [t]"
  by (simp add: fetch_track_def split_beta fetched_format split: sum.splits)

lemma body_manual:
  assumes "api_get_transcript w vid = Inl e" "api_list_transcripts w vid = Inr ts" "first_manual ts = Some t"
  shows "get_transcript_body w vid = (fst (fetch_track w t), FetchEnglish vid # ListTranscripts vid # snd (fetch_track w t))"
  using assms by (simp add: get_transcript_body_def split: prod.splits)

lemma fetched_get_transcript: "fetched (snd (get_transcript w vid)) = fetched (snd (get_transcript_body w vid))"
  by (auto simp: get_transcript_def fetched_append split: prod.splits sum.splits)


lemma body_generated:
  assumes "api_get_transcript w vid = Inl e" "api_list_transcripts w vid = Inr ts"
    "first_manual ts = None" "first_generated ts = Some t"
  shows "get_transcript_body w vid = (fst (fetch_track w t), FetchEnglish vid # ListTranscripts vid # snd (fetch_track w t))"
  using assms by (simp add: get_transcript_body_def split: prod.splits)

lemma body_none:
  assumes "api_get_transcript w vid = Inl e" "api_list_transcripts w vid = Inr ts"
    "first_manual ts = None" "first_generated ts = None"
  shows "get_transcript_body w vid = (Inl (UnboundLocalError ''transcript_list''), [FetchEnglish vid, ListTranscripts vid])"
  using assms by (simp add: get_transcript_body_def)

lemma fetch_track_en:
  "fetch t = Inr r \<Longrightarrow> language_code t = py ''en'' \<Longrightarrow>
   fst (fetch_track w t) = Inr (format_transcript w r, py ''en'')"
  by (simp add: fetch_track_def format_and_translate_def)

lemma fetch_track_translated:
  "fetch t = Inr r \<Longrightarrow> language_code t \<noteq> py ''en'' \<Longrightarrow>
   generate_content w (TranslationPrompt (language_code t) (format_transcript w r)) = Inr tr \<Longrightarrow>
   fst (fetch_track w t) = Inr (tr, language_code t)"
  by (simp add: fetch_track_def format_and_translate_def)

lemma get_transcript_fst:
  "fst (get_transcript_body w vid) = Inr (text, lang) \<Longrightarrow> fst (get_transcript w vid) = (Some text, Some lang)"
  by (cases "get_transcript_body w vid") (simp add: get_transcript_def)

lemma no_track_iff_empty: "first_manual ts = None \<and> first_generated ts = None \<longleftrightarrow> ts = []"
  by (cases ts) (auto split: if_splits)





text \<open>
  C2. In the fallback path (the English fetch raised, the enumeration succeeded): when the
  enumeration is \<open>pre @ t # post\<close> with only generated tracks in \<open>pre\<close> and \<open>t\<close> not
  generated, \<open>t\<close> is the one track that is fetched, and when its fetch succeeds the
  language returned is the language of \<open>t\<close> (with the formatted text when that language is
  \<open>en\<close>, with the translation of it when the translation call succeeds). A generated track
  is fetched only when every track of the enumeration is generated.
\<close>

theorem fallback_selects_first_manual:
  assumes en: "api_get_transcript w vid = Inl e"
    and ls: "api_list_transcripts w vid = Inr ts"
  shows "(ts = pre @ t # post \<and> (\<forall>g\<in>set pre. is_generated g) \<and> \<not> is_generated t \<longrightarrow>
            fetched (snd (get_transcript w vid)) = [t] \<and>
            (\<forall>r. fetch t = Inr r \<and> language_code t = py ''en'' \<longrightarrow>
                 fst (get_transcript w vid) = (Some (format_transcript w r), Some (py ''en''))) \<and>
            (\<forall>r tr. fetch t = Inr r \<and> language_code t \<noteq> py ''en'' \<and>
                 generate_content w (TranslationPrompt (language_code t) (format_transcript w r)) = Inr tr \<longrightarrow>
                 fst (get_transcript w vid) = (Some tr, Some (language_code t))))
       \<and> (\<forall>g\<in>set (fetched (snd (get_transcript w vid))). is_generated g \<longrightarrow> (\<forall>x\<in>set ts. is_generated x))"
proof (intro conjI impI)
  assume h: "ts = pre @ t # post \<and> (\<forall>g\<in>set pre. is_generated g) \<and> \<not> is_generated t"
  then have fm: "first_manual ts = Some t"
    by (simp add: first_manual_split)
  have body: "get_transcript_body w vid =
      (fst (fetch_track w t), FetchEnglish vid # ListTranscripts vid # snd (fetch_track w t))"
    by (rule body_manual[OF en ls fm])
  show "fetched (snd (get_transcript w vid)) = [t]"
    by (simp add: fetched_get_transcript body fetched_fetch_track)
  show "\<forall>r. fetch t = Inr r \<and> language_code t = py ''en'' \<longrightarrow>
           fst (get_transcript w vid) = (Some (format_transcript w r), Some (py ''en''))"
    by (auto intro!: get_transcript_fst simp: body fetch_track_en)
  show "\<forall>r tr. fetch t = Inr r \<and> language_code t \<noteq> py ''en'' \<and>
           generate_content w (TranslationPrompt (language_code t) (format_transcript w r)) = Inr tr \<longrightarrow>
           fst (get_transcript w vid) = (Some tr, Some (language_code t))"
    by (auto intro!: get_transcript_fst simp: body fetch_track_translated)
next
  show "\<forall>g\<in>set (fetched (snd (get_transcript w vid))). is_generated g \<longrightarrow> (\<forall>x\<in>set ts. is_generated x)"
  proof (cases "first_manual ts")
    case None
    then show ?thesis by (simp add: first_manual_None)
  next
    case (Some m)
    have "fetched (snd (get_transcript w vid)) = [m]"
      by (simp add: fetched_get_transcript body_manual[OF en ls Some] fetched_fetch_track)
    moreover have "\<not> is_generated m"
      using first_manual_Some[OF Some] by simp
    ultimately show ?thesis by simp
  qed
qed

theorem fallback_selects_first_manual_witness:
  "fetched (snd (get_transcript world_no_english (py ''dQw4w9WgXcQ''))) = [tracks_de_fr_es ! 1]
   \<and> fst (get_transcript world_no_english (py ''dQw4w9WgXcQ'')) = (Some (py ''one''), Some (py ''fr''))"
  using fallback_selects_first_manual
    [of world_no_english "py ''dQw4w9WgXcQ''" "ServiceError ''NoTranscriptFound''" tracks_de_fr_es
        "[tracks_de_fr_es ! 0]" "tracks_de_fr_es ! 1" "[tracks_de_fr_es ! 2]"]
  by (simp add: world_no_english_def tracks_de_fr_es_def py_def)

section \<open>Properties of the output writer\<close>

lemma split_from_not_Nil: "split_from sep cur s \<noteq> []"
  by (induction sep cur s rule: split_from.induct) auto

lemma split_from_single: "split_from sep cur s = [b] \<Longrightarrow> b = cur @ s"
proof (induction sep cur s arbitrary: b rule: split_from.induct)
  case (1 sep cur)
  then show ?case by simp
next
  case (2 sep cur c cs)
  then show ?case
    by (auto simp: split_from_not_Nil split: if_splits)
qed

lemma prefix_drop: "prefix sep s \<Longrightarrow> s = sep @ drop (length sep) s"
  by (auto simp: prefix_def)

lemma split_from_two: "split_from sep cur s = [a, b] \<Longrightarrow> cur @ s = a @ sep @ b"
proof (induction sep cur s arbitrary: a b rule: split_from.induct)
  case (1 sep cur)
  then show ?case by simp
next
  case (2 sep cur c cs)
  show ?case
  proof (cases "sep \<noteq> [] \<and> prefix sep (c # cs)")
    case True
    with "2.prems" have a: "a = cur" and r: "split_from sep [] (drop (length sep) (c # cs)) = [b]"
      by simp_all
    from split_from_single[OF r] have "b = drop (length sep) (c # cs)" by simp
    with True a prefix_drop[of sep "c # cs"] show ?thesis by simp
  next
    case False
    with "2.prems" have "split_from sep (cur @ [c]) cs = [a, b]" by auto
    from "2.IH"(2)[OF False this] show ?thesis by simp
  qed
qed

lemma split_two: "split s sep = [a, b] \<Longrightarrow> s = a @ sep @ b"
  using split_from_two[of sep "[]" s a b] by (simp add: split_def)

lemma occurrences_after_summary:
  "occurrences (py ''SUMMARY:'') (py ''SUMMARY:'' @ r) = Suc (occurrences (py ''SUMMARY:'') r)"
  by (simp add: py_def)

lemma length_split_from:
  "length (split_from (py ''SUMMARY:'') cur s) = Suc (occurrences (py ''SUMMARY:'') s)"
proof (induction "py ''SUMMARY:''" cur s rule: split_from.induct)
  case (1 cur)
  then show ?case by (simp add: py_def)
next
  case (2 cur c cs)
  show ?case
  proof (cases "prefix (py ''SUMMARY:'') (c # cs)")
    case True
    then obtain r where r: "c # cs = py ''SUMMARY:'' @ r"
      by (auto simp: prefix_def)
    have ne: "py ''SUMMARY:'' \<noteq> []" by (simp add: py_def)
    have d: "drop (length (py ''SUMMARY:'')) (c # cs) = r"
      by (simp add: r)
    have "split_from (py ''SUMMARY:'') cur (c # cs) = cur # split_from (py ''SUMMARY:'') [] r"
      using True ne d by simp
    moreover have "length (split_from (py ''SUMMARY:'') [] r) = Suc (occurrences (py ''SUMMARY:'') r)"
      using "2.hyps"(1) True ne d by simp
    ultimately show ?thesis
      by (simp only: r occurrences_after_summary list.size length_Cons) 
  next
    case False
    then show ?thesis using "2.hyps"(2) by simp
  qed
qed

lemma length_split: "length (split s (py ''SUMMARY:'')) = Suc (occurrences (py ''SUMMARY:'') s)"
  by (simp add: split_def length_split_from)

lemma save_to_file_one_file:
  assumes "length (split content (py ''SUMMARY:'')) \<noteq> 2"
    and "write_file w (filename @ py ''_full.txt'') content = None"
  shows "save_to_file w content filename =
           [Wrote (filename @ py ''_full.txt'') content, Print (FullContentSaved filename)]"
  using assms by (simp add: save_to_file_def save_to_file_body_def write_text_def)

lemma save_to_file_three_files:
  assumes "split content (py ''SUMMARY:'') = [p0, p1]"
    and "write_file w (filename @ py ''_full.txt'') content = None"
    and "write_file w (filename @ py ''_notes.txt'') (strip (replace p0 (py ''NOTES:'') [])) = None"
    and "write_file w (filename @ py ''_summary.txt'') (strip p1) = None"
  shows "save_to_file w content filename =
           [Wrote (filename @ py ''_full.txt'') content,
            Wrote (filename @ py ''_notes.txt'') (strip (replace p0 (py ''NOTES:'') [])),
            Wrote (filename @ py ''_summary.txt'') (strip p1),
            Print (FilesSaved filename), Print (SavedFull filename), Print (SavedNotes filename),
            Print (SavedSummary filename), Print (SavedTranscript filename)]"
  using assms by (simp add: save_to_file_def save_to_file_body_def write_text_def)

text \<open>
  C8. When the text holds no \<open>SUMMARY:\<close> or more than one, and the full file can be
  written, the writer writes the full file with the whole text and nothing else, and prints
  the line for the full file: no notes file, no summary file, no error message.
\<close>

theorem other_marker_counts_write_full_only:
  assumes "occurrences (py ''SUMMARY:'') content \<noteq> 1"
    and "write_file w (filename @ py ''_full.txt'') content = None"
  shows "save_to_file w content filename =
           [Wrote (filename @ py ''_full.txt'') content, Print (FullContentSaved filename)]"
  using assms by (intro save_to_file_one_file) (simp_all add: length_split)

theorem other_marker_counts_write_full_only_witness:
  "save_to_file world_english (py ''no marker here'') (py ''out'') =
     [Wrote (py ''out_full.txt'') (py ''no marker here''), Print (FullContentSaved (py ''out''))]
   \<and> save_to_file world_english (py ''SUMMARY: a SUMMARY: b'') (py ''out'') =
     [Wrote (py ''out_full.txt'') (py ''SUMMARY: a SUMMARY: b''),
      Print (FullContentSaved (py ''out''))]"
proof -
  have o: "occurrences (py ''SUMMARY:'') (py ''no marker here'') = 0"
    "occurrences (py ''SUMMARY:'') (py ''SUMMARY: a SUMMARY: b'') = 2"
    by (simp_all add: py_def)
  have n: "py ''out'' @ py ''_full.txt'' = py ''out_full.txt''"
    by (simp add: py_def)
  show ?thesis
    using other_marker_counts_write_full_only
            [of "py ''no marker here''" world_english "py ''out''"]
          other_marker_counts_write_full_only
            [of "py ''SUMMARY: a SUMMARY: b''" world_english "py ''out''"]
    by (simp add: o n world_english_def)
qed

text \<open>
  C3, as amended. When the split on \<open>SUMMARY:\<close> gives the two parts \<open>p0\<close> and \<open>p1\<close> and
  the three files can be written, the notes file holds \<open>p0\<close> with every occurrence of
  \<open>NOTES:\<close> taken out and the surrounding white space stripped, and the summary file holds
  \<open>p1\<close> with the surrounding white space stripped.
\<close>

theorem save_to_file_two_parts:
  assumes "split content (py ''SUMMARY:'') = [p0, p1]"
    and "write_file w (filename @ py ''_full.txt'') content = None"
    and "write_file w (filename @ py ''_notes.txt'') (strip (replace p0 (py ''NOTES:'') [])) = None"
    and "write_file w (filename @ py ''_summary.txt'') (strip p1) = None"
  shows "save_to_file w content filename =
           [Wrote (filename @ py ''_full.txt'') content,
            Wrote (filename @ py ''_notes.txt'') (strip (replace p0 (py ''NOTES:'') [])),
            Wrote (filename @ py ''_summary.txt'') (strip p1),
            Print (FilesSaved filename), Print (SavedFull filename), Print (SavedNotes filename),
            Print (SavedSummary filename), Print (SavedTranscript filename)]"
  by (rule save_to_file_three_files[OF assms])

lemma split_example2:
  "split (py ''NOTES: a NOTES: b SUMMARY: c'') (py ''SUMMARY:'') =
     [py ''NOTES: a NOTES: b '', py '' c'']"
  by (simp add: split_def py_def)

lemma file_names_out:
  "py ''out'' @ py ''_full.txt'' = py ''out_full.txt''"
  "py ''out'' @ py ''_notes.txt'' = py ''out_notes.txt''"
  "py ''out'' @ py ''_summary.txt'' = py ''out_summary.txt''"
  by (simp_all add: py_def)

lemma notes_example2:
  "strip (replace (py ''NOTES: a NOTES: b '') (py ''NOTES:'') []) = py ''a  b''"
  "strip (py '' c'') = py ''c''"
  by (simp_all add: replace_def strip_def isspace_def py_def)

theorem save_to_file_two_parts_witness:
  "save_to_file world_english (py ''NOTES: a NOTES: b SUMMARY: c'') (py ''out'') =
     [Wrote (py ''out_full.txt'') (py ''NOTES: a NOTES: b SUMMARY: c''),
      Wrote (py ''out_notes.txt'') (py ''a  b''),
      Wrote (py ''out_summary.txt'') (py ''c''),
      Print (FilesSaved (py ''out'')), Print (SavedFull (py ''out'')), Print (SavedNotes (py ''out'')),
      Print (SavedSummary (py ''out'')), Print (SavedTranscript (py ''out''))]"
  using save_to_file_two_parts [OF split_example2, of world_english "py ''out''"]
  by (simp add: world_english_def file_names_out notes_example2)

text \<open>
  C3, as stated, fails: with a second \<open>NOTES:\<close> inside part one, the notes file is not
  part one without its leading label; the inner label is taken out as well.
\<close>

theorem leading_label_only_counterexample:
  "split (py ''NOTES: a NOTES: b SUMMARY: c'') (py ''SUMMARY:'') =
     [py ''NOTES: a NOTES: b '', py '' c'']
   \<and> spec_notes (py ''NOTES: a NOTES: b '') = py ''a NOTES: b''
   \<and> Wrote (py ''out_notes.txt'') (py ''a  b'')
        \<in> set (save_to_file world_english (py ''NOTES: a NOTES: b SUMMARY: c'') (py ''out''))
   \<and> Wrote (py ''out_notes.txt'') (spec_notes (py ''NOTES: a NOTES: b ''))
        \<notin> set (save_to_file world_english (py ''NOTES: a NOTES: b SUMMARY: c'') (py ''out''))"
proof -
  have s: "spec_notes (py ''NOTES: a NOTES: b '') = py ''a NOTES: b''"
    by (simp add: spec_notes_def strip_def isspace_def py_def)
  have t: "save_to_file world_english (py ''NOTES: a NOTES: b SUMMARY: c'') (py ''out'') =
     [Wrote (py ''out_full.txt'') (py ''NOTES: a NOTES: b SUMMARY: c''),
      Wrote (py ''out_notes.txt'') (py ''a  b''),
      Wrote (py ''out_summary.txt'') (py ''c''),
      Print (FilesSaved (py ''out'')), Print (SavedFull (py ''out'')), Print (SavedNotes (py ''out'')),
      Print (SavedSummary (py ''out'')), Print (SavedTranscript (py ''out''))]"
    using save_to_file_three_files [OF split_example2, of world_english "py ''out''"]
    by (simp add: world_english_def file_names_out notes_example2)
  have d: "py ''a NOTES: b'' \<noteq> py ''a  b''" "py ''out_notes.txt'' \<noteq> py ''out_full.txt''"
    "py ''out_notes.txt'' \<noteq> py ''out_summary.txt''"
    by (simp_all add: py_def)
  show ?thesis
    unfolding s t using d by (simp add: split_example2)
qed

lemma split_example:
  "split (py ''NOTES: a SUMMARY: b'') (py ''SUMMARY:'') = [py ''NOTES: a '', py '' b'']"
  by (simp add: split_def py_def)


lemma filter_dropWhile_not: "filter (\<lambda>c. \<not> P c) (dropWhile P xs) = filter (\<lambda>c. \<not> P c) xs"
  by (induction xs) auto

lemma del_ws_strip: "del_ws (strip s) = del_ws s"
  by (simp add: del_ws_def strip_def filter_dropWhile_not flip: rev_filter)

lemma del_ws_append: "del_ws (a @ b) = del_ws a @ del_ws b"
  by (simp add: del_ws_def)

text \<open>
  C4, as amended. When \<open>SUMMARY:\<close> occurs once in the text and every file can be written,
  the text is \<open>p0 @ SUMMARY: @ p1\<close>, the full file holds the text as it is, and the notes
  file followed by the summary file is, white space apart, \<open>p0\<close> without its \<open>NOTES:\<close>
  labels followed by \<open>p1\<close>: the text without the marker and without the labels the writer
  takes out.
\<close>

theorem notes_and_summary_reconstruct:
  assumes "occurrences (py ''SUMMARY:'') content = 1"
    and "\<And>name text. write_file w name text = None"
  shows "\<exists>p0 p1 notes summary.
           content = p0 @ py ''SUMMARY:'' @ p1 \<and>
           save_to_file w content filename =
             [Wrote (filename @ py ''_full.txt'') content,
              Wrote (filename @ py ''_notes.txt'') notes,
              Wrote (filename @ py ''_summary.txt'') summary,
              Print (FilesSaved filename), Print (SavedFull filename), Print (SavedNotes filename),
              Print (SavedSummary filename), Print (SavedTranscript filename)] \<and>
           del_ws (notes @ summary) = del_ws (replace p0 (py ''NOTES:'') [] @ p1)"
proof -
  have "length (split content (py ''SUMMARY:'')) = 2"
    using assms(1) by (simp add: length_split)
  then obtain p0 p1 where sp: "split content (py ''SUMMARY:'') = [p0, p1]"
    by (auto simp: length_Suc_conv numeral_2_eq_2)
  have c: "content = p0 @ py ''SUMMARY:'' @ p1"
    by (rule split_two[OF sp])
  have s: "save_to_file w content filename =
             [Wrote (filename @ py ''_full.txt'') content,
              Wrote (filename @ py ''_notes.txt'') (strip (replace p0 (py ''NOTES:'') [])),
              Wrote (filename @ py ''_summary.txt'') (strip p1),
              Print (FilesSaved filename), Print (SavedFull filename), Print (SavedNotes filename),
              Print (SavedSummary filename), Print (SavedTranscript filename)]"
    by (rule save_to_file_three_files[OF sp]) (rule assms(2))+
  have d: "del_ws (strip (replace p0 (py ''NOTES:'') []) @ strip p1) =
           del_ws (replace p0 (py ''NOTES:'') [] @ p1)"
    by (simp add: del_ws_append del_ws_strip)
  from c s d show ?thesis by blast
qed

theorem notes_and_summary_reconstruct_witness:
  "\<exists>p0 p1 notes summary.
     py ''NOTES: a SUMMARY: b'' = p0 @ py ''SUMMARY:'' @ p1 \<and>
     save_to_file world_english (py ''NOTES: a SUMMARY: b'') (py ''out'') =
       [Wrote (py ''out'' @ py ''_full.txt'') (py ''NOTES: a SUMMARY: b''),
        Wrote (py ''out'' @ py ''_notes.txt'') notes,
        Wrote (py ''out'' @ py ''_summary.txt'') summary,
        Print (FilesSaved (py ''out'')), Print (SavedFull (py ''out'')), Print (SavedNotes (py ''out'')),
        Print (SavedSummary (py ''out'')), Print (SavedTranscript (py ''out''))] \<and>
     del_ws (notes @ summary) = del_ws (replace p0 (py ''NOTES:'') [] @ p1)"
proof -
  have o: "occurrences (py ''SUMMARY:'') (py ''NOTES: a SUMMARY: b'') = 1"
    by (simp add: py_def)
  have w: "\<And>name text. write_file world_english name text = None"
    by (simp add: world_english_def)
  show ?thesis
    by (rule notes_and_summary_reconstruct[OF o w])
qed

lemma split_example3:
  "split (py ''NOTES: NOTNOTES:ES: x SUMMARY: y'') (py ''SUMMARY:'') =
     [py ''NOTES: NOTNOTES:ES: x '', py '' y'']"
  by (simp add: split_def py_def)

lemma notes_example3:
  "strip (replace (py ''NOTES: NOTNOTES:ES: x '') (py ''NOTES:'') []) = py ''NOTES: x''"
  "strip (py '' y'') = py ''y''"
  by (simp_all add: replace_def strip_def isspace_def py_def)

lemma notes_example1:
  "strip (replace (py ''NOTES: a '') (py ''NOTES:'') []) = py ''a''"
  "strip (py '' b'') = py ''b''"
  by (simp_all add: replace_def strip_def isspace_def py_def)

text \<open>
  C4, as stated, fails. For \<open>NOTES: a SUMMARY: b\<close> the three files together hold the text
  twice: labels and white space ignored they read \<open>abab\<close>, the text reads \<open>ab\<close>. Leaving
  the full file out does not save the statement for every text: in
  \<open>NOTES: NOTNOTES:ES: x SUMMARY: y\<close> the writer's removal of the labels leaves a new
  \<open>NOTES:\<close> in the notes file, and with labels and white space ignored on both sides the
  two files read \<open>xy\<close>, the text \<open>NOTES:xy\<close>.
\<close>

theorem three_files_concatenation_counterexample:
  "occurrences (py ''SUMMARY:'') (py ''NOTES: a SUMMARY: b'') = 1
   \<and> lit (py ''NOTES:'') (py ''NOTES: a SUMMARY: b'') \<noteq> None
   \<and> save_to_file world_english (py ''NOTES: a SUMMARY: b'') (py ''out'') =
       [Wrote (py ''out_full.txt'') (py ''NOTES: a SUMMARY: b''),
        Wrote (py ''out_notes.txt'') (py ''a''),
        Wrote (py ''out_summary.txt'') (py ''b''),
        Print (FilesSaved (py ''out'')), Print (SavedFull (py ''out'')), Print (SavedNotes (py ''out'')),
        Print (SavedSummary (py ''out'')), Print (SavedTranscript (py ''out''))]
   \<and> ignore_labels_ws (py ''NOTES: a SUMMARY: b'' @ py ''a'' @ py ''b'')
       \<noteq> ignore_labels_ws (py ''NOTES: a SUMMARY: b'')
   \<and> occurrences (py ''SUMMARY:'') (py ''NOTES: NOTNOTES:ES: x SUMMARY: y'') = 1
   \<and> lit (py ''NOTES:'') (py ''NOTES: NOTNOTES:ES: x SUMMARY: y'') \<noteq> None
   \<and> save_to_file world_english (py ''NOTES: NOTNOTES:ES: x SUMMARY: y'') (py ''out'') =
       [Wrote (py ''out_full.txt'') (py ''NOTES: NOTNOTES:ES: x SUMMARY: y''),
        Wrote (py ''out_notes.txt'') (py ''NOTES: x''),
        Wrote (py ''out_summary.txt'') (py ''y''),
        Print (FilesSaved (py ''out'')), Print (SavedFull (py ''out'')), Print (SavedNotes (py ''out'')),
        Print (SavedSummary (py ''out'')), Print (SavedTranscript (py ''out''))]
   \<and> ignore_labels_ws (py ''NOTES: x'' @ py ''y'')
       \<noteq> ignore_labels_ws (py ''NOTES: NOTNOTES:ES: x SUMMARY: y'')"
proof -
  have w: "\<And>name text. write_file world_english name text = None"
    by (simp add: world_english_def)
  have a: "save_to_file world_english (py ''NOTES: a SUMMARY: b'') (py ''out'') =
       [Wrote (py ''out_full.txt'') (py ''NOTES: a SUMMARY: b''),
        Wrote (py ''out_notes.txt'') (py ''a''),
        Wrote (py ''out_summary.txt'') (py ''b''),
        Print (FilesSaved (py ''out'')), Print (SavedFull (py ''out'')), Print (SavedNotes (py ''out'')),
        Print (SavedSummary (py ''out'')), Print (SavedTranscript (py ''out''))]"
    using save_to_file_three_files [OF split_example, of world_english "py ''out''"]
    by (simp add: w file_names_out notes_example1)
  have b: "save_to_file world_english (py ''NOTES: NOTNOTES:ES: x SUMMARY: y'') (py ''out'') =
       [Wrote (py ''out_full.txt'') (py ''NOTES: NOTNOTES:ES: x SUMMARY: y''),
        Wrote (py ''out_notes.txt'') (py ''NOTES: x''),
        Wrote (py ''out_summary.txt'') (py ''y''),
        Print (FilesSaved (py ''out'')), Print (SavedFull (py ''out'')), Print (SavedNotes (py ''out'')),
        Print (SavedSummary (py ''out'')), Print (SavedTranscript (py ''out''))]"
    using save_to_file_three_files [OF split_example3, of world_english "py ''out''"]
    by (simp add: w file_names_out notes_example3)
  have c: "occurrences (py ''SUMMARY:'') (py ''NOTES: a SUMMARY: b'') = 1"
    "lit (py ''NOTES:'') (py ''NOTES: a SUMMARY: b'') \<noteq> None"
    "occurrences (py ''SUMMARY:'') (py ''NOTES: NOTNOTES:ES: x SUMMARY: y'') = 1"
    "lit (py ''NOTES:'') (py ''NOTES: NOTNOTES:ES: x SUMMARY: y'') \<noteq> None"
    by (simp_all add: py_def)
  have d: "ignore_labels_ws (py ''NOTES: a SUMMARY: b'' @ py ''a'' @ py ''b'') = py ''abab''"
    "ignore_labels_ws (py ''NOTES: a SUMMARY: b'') = py ''ab''"
    "ignore_labels_ws (py ''NOTES: x'' @ py ''y'') = py ''xy''"
    "ignore_labels_ws (py ''NOTES: NOTNOTES:ES: x SUMMARY: y'') = py ''NOTES:xy''"
    by (simp_all add: ignore_labels_ws_def del_ws_def replace_def isspace_def py_def)
  have e: "py ''abab'' \<noteq> py ''ab''" "py ''xy'' \<noteq> py ''NOTES:xy''"
    by (simp_all add: py_def)
  show ?thesis
    unfolding a b d using c e by simp
qed

section \<open>Properties of the orchestrator\<close>


lemma process_no_transcript:
  assumes "extract_video_id url = Some vid" "get_transcript w vid = ((transcript, language), evs)"
    "falsy transcript"
  shows "process_youtube_video w url =
           (Inr (), Print (ProcessingVideo vid) # evs @ [Print CouldNotRetrieve])"
  using assms extract_video_id_not_falsy[OF assms(1)]
  by (simp add: process_youtube_video_def)

lemma process_transcript_write_fails:
  assumes "extract_video_id url = Some vid" "get_transcript w vid = ((Some tr, language), evs)"
    "tr \<noteq> []" "write_file w (py ''video_'' @ vid @ py ''_transcript.txt'') tr = Some e"
  shows "process_youtube_video w url =
           (Inl e, Print (ProcessingVideo vid) # evs @
                   [WriteFailed (py ''video_'' @ vid @ py ''_transcript.txt'') tr])"
  using assms extract_video_id_not_falsy[OF assms(1)]
  by (simp add: process_youtube_video_def falsy_def write_text_def)

lemma process_no_notes:
  assumes "extract_video_id url = Some vid" "get_transcript w vid = ((Some tr, language), evs)"
    "tr \<noteq> []" "write_file w (py ''video_'' @ vid @ py ''_transcript.txt'') tr = None"
    "generate_notes_with_gemini w tr = (notes_content, evs3)" "falsy notes_content"
  shows "process_youtube_video w url =
           (Inr (), Print (ProcessingVideo vid) # evs @
                    [Wrote (py ''video_'' @ vid @ py ''_transcript.txt'') tr,
                     Print (GeneratingNotes language)] @ evs3 @ [Print CouldNotGenerate])"
  using assms extract_video_id_not_falsy[OF assms(1)]
  by (simp add: process_youtube_video_def falsy_def write_text_def)


lemma url_youtu_be: "extract_video_id (py ''https://youtu.be/dQw4w9WgXcQ'') = Some (py ''dQw4w9WgXcQ'')"
  by (simp add: extract_video_id_def py_def pattern1_at_def id11_def idchar_def)

text \<open>
  C6. When the English fetch raises and the enumeration chooses no track (neither scan finds
  one, which for a list of tracks means that it is empty), the acquirer returns
  \<open>(None, None)\<close> and raises nothing: reading the unbound \<open>transcript_list\<close> raises inside
  the \<open>try\<close>, and the \<open>except\<close> prints it. The run consists of the English fetch, the
  enumeration and that message, so the generative model is not called, neither for a
  translation nor for notes; the orchestrator then prints its message and returns.
\<close>

theorem no_track_fails_without_generation:
  assumes "api_get_transcript w vid = Inl e"
    and "api_list_transcripts w vid = Inr ts"
    and "first_manual ts = None" and "first_generated ts = None"
  shows "get_transcript w vid =
           ((None, None),
            [FetchEnglish vid, ListTranscripts vid,
             Print (ErrorGettingTranscript (UnboundLocalError ''transcript_list''))])
         \<and> filter is_generate (snd (get_transcript w vid)) = []
         \<and> (extract_video_id url = Some vid \<longrightarrow>
              process_youtube_video w url =
                (Inr (),
                 [Print (ProcessingVideo vid), FetchEnglish vid, ListTranscripts vid,
                  Print (ErrorGettingTranscript (UnboundLocalError ''transcript_list'')),
                  Print CouldNotRetrieve]))"
proof -
  have g: "get_transcript w vid =
           ((None, None),
            [FetchEnglish vid, ListTranscripts vid,
             Print (ErrorGettingTranscript (UnboundLocalError ''transcript_list''))])"
    by (simp add: get_transcript_def body_none[OF assms])
  have "extract_video_id url = Some vid \<Longrightarrow>
        process_youtube_video w url =
          (Inr (),
           [Print (ProcessingVideo vid), FetchEnglish vid, ListTranscripts vid,
            Print (ErrorGettingTranscript (UnboundLocalError ''transcript_list'')),
            Print CouldNotRetrieve])"
    using process_no_transcript[OF _ g] by (simp add: falsy_def)
  with g show ?thesis by (simp add: is_generate_def)
qed

theorem no_track_fails_without_generation_witness:
  "process_youtube_video world_no_captions (py ''https://youtu.be/dQw4w9WgXcQ'') =
     (Inr (),
      [Print (ProcessingVideo (py ''dQw4w9WgXcQ'')), FetchEnglish (py ''dQw4w9WgXcQ''),
       ListTranscripts (py ''dQw4w9WgXcQ''),
       Print (ErrorGettingTranscript (UnboundLocalError ''transcript_list'')),
       Print CouldNotRetrieve])"
  using no_track_fails_without_generation
    [of world_no_captions "py ''dQw4w9WgXcQ''" "ServiceError ''NoTranscriptFound''" "[]"
        "py ''https://youtu.be/dQw4w9WgXcQ''"]
  by (simp add: world_no_captions_def url_youtu_be)


text \<open>
  C10. The orchestrator tests its results with \<open>not\<close>, so an empty string counts as the
  failure sentinel. For a transcript that is \<open>None\<close> or empty it adds to the acquirer's
  events only the could-not-retrieve message and returns: it writes no file and makes no
  notes call. For generated notes that are \<open>None\<close> or empty it adds, after the write of the
  transcript file and the call of the model, only the could-not-generate message: no output
  file is written. The model answering with the empty text gives the empty notes.
\<close>

theorem empty_results_are_failures:
  assumes "extract_video_id url = Some vid"
  shows "(get_transcript w vid = ((transcript, language), evs) \<and>
            (transcript = None \<or> transcript = Some []) \<longrightarrow>
          process_youtube_video w url =
            (Inr (), Print (ProcessingVideo vid) # evs @ [Print CouldNotRetrieve]))
       \<and> (get_transcript w vid = ((Some tr, language), evs) \<and> tr \<noteq> [] \<and>
            write_file w (py ''video_'' @ vid @ py ''_transcript.txt'') tr = None \<and>
            generate_notes_with_gemini w tr = (notes_content, evs3) \<and>
            (notes_content = None \<or> notes_content = Some []) \<longrightarrow>
          process_youtube_video w url =
            (Inr (), Print (ProcessingVideo vid) # evs @
                     [Wrote (py ''video_'' @ vid @ py ''_transcript.txt'') tr,
                      Print (GeneratingNotes language)] @ evs3 @ [Print CouldNotGenerate]))
       \<and> (generate_content w (NotesPrompt tr) = Inr [] \<longrightarrow>
            generate_notes_with_gemini w tr = (Some [], [Generate (NotesPrompt tr)]))"
proof (intro conjI impI)
  assume "get_transcript w vid = ((transcript, language), evs) \<and>
          (transcript = None \<or> transcript = Some [])"
  then show "process_youtube_video w url =
      (Inr (), Print (ProcessingVideo vid) # evs @ [Print CouldNotRetrieve])"
    using process_no_transcript[OF assms, of w transcript language evs]
    by (auto simp: falsy_def)
next
  assume "get_transcript w vid = ((Some tr, language), evs) \<and> tr \<noteq> [] \<and>
          write_file w (py ''video_'' @ vid @ py ''_transcript.txt'') tr = None \<and>
          generate_notes_with_gemini w tr = (notes_content, evs3) \<and>
          (notes_content = None \<or> notes_content = Some [])"
  then show "process_youtube_video w url =
      (Inr (), Print (ProcessingVideo vid) # evs @
               [Wrote (py ''video_'' @ vid @ py ''_transcript.txt'') tr,
                Print (GeneratingNotes language)] @ evs3 @ [Print CouldNotGenerate])"
    using process_no_notes[OF assms, of w tr language evs notes_content evs3]
    by (auto simp: falsy_def)
next
  assume "generate_content w (NotesPrompt tr) = Inr []"
  then show "generate_notes_with_gemini w tr = (Some [], [Generate (NotesPrompt tr)])"
    by (simp add: generate_notes_with_gemini_def)
qed

theorem empty_results_are_failures_witness:
  "process_youtube_video world_empty_transcript (py ''https://youtu.be/dQw4w9WgXcQ'') =
     (Inr (),
      [Print (ProcessingVideo (py ''dQw4w9WgXcQ'')), FetchEnglish (py ''dQw4w9WgXcQ''),
       Print CouldNotRetrieve])
   \<and> process_youtube_video world_empty_notes (py ''https://youtu.be/dQw4w9WgXcQ'') =
     (Inr (),
      [Print (ProcessingVideo (py ''dQw4w9WgXcQ'')), FetchEnglish (py ''dQw4w9WgXcQ''),
       Wrote (py ''video_dQw4w9WgXcQ_transcript.txt'') (py ''hello''),
       Print (GeneratingNotes (Some (py ''en''))),
       Generate (NotesPrompt (py ''hello'')), Print CouldNotGenerate])"
proof -
  have a: "get_transcript world_empty_transcript (py ''dQw4w9WgXcQ'') =
             ((Some [], Some (py ''en'')), [FetchEnglish (py ''dQw4w9WgXcQ'')])"
    by (simp add: get_transcript_def get_transcript_body_def format_and_translate_def
          world_empty_transcript_def)
  have b: "get_transcript world_empty_notes (py ''dQw4w9WgXcQ'') =
             ((Some (py ''hello''), Some (py ''en'')), [FetchEnglish (py ''dQw4w9WgXcQ'')])"
    by (simp add: get_transcript_def get_transcript_body_def format_and_translate_def
          world_empty_notes_def)
  have c: "generate_notes_with_gemini world_empty_notes (py ''hello'') =
             (Some [], [Generate (NotesPrompt (py ''hello''))])"
    by (simp add: generate_notes_with_gemini_def world_empty_notes_def)
  have d: "write_file world_empty_notes
             (py ''video_'' @ py ''dQw4w9WgXcQ'' @ py ''_transcript.txt'') (py ''hello'') = None"
    by (simp add: world_empty_notes_def)
  have e: "py ''hello'' \<noteq> []" by (simp add: py_def)
  have f: "py ''video_'' @ py ''dQw4w9WgXcQ'' @ py ''_transcript.txt'' =
           py ''video_dQw4w9WgXcQ_transcript.txt''"
    by (simp add: py_def)
  show ?thesis
    using empty_results_are_failures [OF url_youtu_be, where w = world_empty_transcript
            and transcript = "Some []" and language = "Some (py ''en'')"
            and evs = "[FetchEnglish (py ''dQw4w9WgXcQ'')]"]
          empty_results_are_failures [OF url_youtu_be, where w = world_empty_notes
            and tr = "py ''hello''" and language = "Some (py ''en'')"
            and evs = "[FetchEnglish (py ''dQw4w9WgXcQ'')]" and notes_content = "Some []"
            and ?evs3.0 = "[Generate (NotesPrompt (py ''hello''))]"]
          a b c d e
    by (simp add: f)
qed

lemma get_transcript_english_worlds:
  "get_transcript world_english (py ''dQw4w9WgXcQ'') =
     ((Some (py ''hello''), Some (py ''en'')), [FetchEnglish (py ''dQw4w9WgXcQ'')])"
  "get_transcript world_model_down (py ''dQw4w9WgXcQ'') =
     ((Some (py ''hello''), Some (py ''en'')), [FetchEnglish (py ''dQw4w9WgXcQ'')])"
  "get_transcript world_read_only (py ''dQw4w9WgXcQ'') =
     ((Some (py ''hello''), Some (py ''en'')), [FetchEnglish (py ''dQw4w9WgXcQ'')])"
  by (simp_all add: get_transcript_def get_transcript_body_def format_and_translate_def
        world_english_def world_model_down_def world_read_only_def)



lemma transcript_file_name:
  "py ''video_'' @ py ''dQw4w9WgXcQ'' @ py ''_transcript.txt'' = py ''video_dQw4w9WgXcQ_transcript.txt''"
  "py ''video_'' @ py ''dQw4w9WgXcQ'' = py ''video_dQw4w9WgXcQ''"
  "py ''hello'' \<noteq> []" "py ''NOTES: a SUMMARY: b'' \<noteq> []"
  by (simp_all add: py_def)


text \<open>
  C5. The claim is that no failing file write leaves the pipeline as an exception. In a
  directory where no file can be written, with an English transcript at hand, the
  orchestrator's own write of the raw transcript raises and the exception leaves
  \<open>process_youtube_video\<close>: the write stands outside every \<open>try\<close>. The same failure
  inside \<open>save_to_file\<close> is caught and printed.
\<close>

theorem raw_transcript_write_failure_propagates:
  "process_youtube_video world_read_only (py ''https://youtu.be/dQw4w9WgXcQ'') =
     (Inl (OSError ''Read-only file system''),
      [Print (ProcessingVideo (py ''dQw4w9WgXcQ'')), FetchEnglish (py ''dQw4w9WgXcQ''),
       WriteFailed (py ''video_dQw4w9WgXcQ_transcript.txt'') (py ''hello'')])
   \<and> save_to_file world_read_only (py ''NOTES: a SUMMARY: b'') (py ''video_dQw4w9WgXcQ'') =
     [WriteFailed (py ''video_dQw4w9WgXcQ_full.txt'') (py ''NOTES: a SUMMARY: b''),
      Print (ErrorSavingFiles (OSError ''Read-only file system''))]"
proof -
  have w: "write_file world_read_only (py ''video_'' @ py ''dQw4w9WgXcQ'' @ py ''_transcript.txt'')
             (py ''hello'') = Some (OSError ''Read-only file system'')"
    by (simp add: world_read_only_def)
  have "process_youtube_video world_read_only (py ''https://youtu.be/dQw4w9WgXcQ'') =
     (Inl (OSError ''Read-only file system''),
      [Print (ProcessingVideo (py ''dQw4w9WgXcQ'')), FetchEnglish (py ''dQw4w9WgXcQ''),
       WriteFailed (py ''video_dQw4w9WgXcQ_transcript.txt'') (py ''hello'')])"
    using process_transcript_write_fails
      [OF url_youtu_be get_transcript_english_worlds(3) transcript_file_name(3) w]
    by (simp add: transcript_file_name)
  moreover have "save_to_file world_read_only (py ''NOTES: a SUMMARY: b'') (py ''video_dQw4w9WgXcQ'') =
     [WriteFailed (py ''video_dQw4w9WgXcQ_full.txt'') (py ''NOTES: a SUMMARY: b''),
      Print (ErrorSavingFiles (OSError ''Read-only file system''))]"
    by (simp add: save_to_file_def save_to_file_body_def write_text_def world_read_only_def py_def)
  ultimately show ?thesis by simp
qed

end
